theory Spec2Isabelle
  imports Main
begin

section \<open>Values handed over by the Notion API\<close>

text \<open>
  The parser receives its input as \<^verbatim>\<open>any\<close>: whatever the Notion client decoded from
  JSON. \<open>jsval\<close> is that universe of run-time values: the six JSON shapes, \<open>undefined\<close>
  (what reading a missing property gives) and built-in functions (what reading
  \<^verbatim>\<open>"s".bold\<close> gives). An object is the association list of its own properties, every
  key occurring once. The program can observe two things of a number: whether it is truthy
  (it is neither 0 nor \<^verbatim>\<open>NaN\<close>) and the string it is rendered as when joined into a string
  (\<^verbatim>\<open>Number::toString\<close>: \<^verbatim>\<open>7\<close>, \<^verbatim>\<open>0.5\<close>, \<^verbatim>\<open>1e+21\<close>, \<^verbatim>\<open>NaN\<close>). \<open>JNum t s\<close> is a number by
  these two observations, so every JavaScript number, integral or not, has its value here.
\<close>

datatype jsval =
    JUndefined
  | JNull
  | JBool bool
  | JNum bool string
  | JStr string
  | JArr "jsval list"
  | JObj "(string \<times> jsval) list"
  | JFun string

datatype js_error = TypeError | ApiError string

text \<open>Sequencing of computations that may throw: the first exception wins.\<close>

definition andThen :: "js_error + 'a \<Rightarrow> ('a \<Rightarrow> js_error + 'b) \<Rightarrow> js_error + 'b" where
  "andThen m f = (case m of Inl e \<Rightarrow> Inl e | Inr v \<Rightarrow> f v)"

fun collect :: "(js_error + 'a) list \<Rightarrow> js_error + 'a list" where
  "collect [] = Inr []"
| "collect (m # ms) = andThen m (\<lambda>y. andThen (collect ms) (\<lambda>ys. Inr (y # ys)))"

text \<open>\<^verbatim>\<open>xs.map(f)\<close> with a callback that may throw: elements are visited left to right.\<close>

definition traverse :: "('a \<Rightarrow> js_error + 'b) \<Rightarrow> 'a list \<Rightarrow> js_error + 'b list" where
  "traverse f xs = collect (map f xs)"

text \<open>\<^verbatim>\<open>ToBoolean\<close>: what \<^verbatim>\<open>!x\<close>, \<^verbatim>\<open>x || y\<close> and \<^verbatim>\<open>if (x)\<close> look at.\<close>

fun truthy :: "jsval \<Rightarrow> bool" where
  "truthy JUndefined = False"
| "truthy JNull = False"
| "truthy (JBool b) = b"
| "truthy (JNum t s) = t"
| "truthy (JStr s) = (s \<noteq> [])"
| "truthy (JArr xs) = True"
| "truthy (JObj kvs) = True"
| "truthy (JFun f) = True"

fun nullish :: "jsval \<Rightarrow> bool" where
  "nullish JUndefined = True"
| "nullish JNull = True"
| "nullish v = False"

fun isArray :: "jsval \<Rightarrow> bool" where
  "isArray (JArr xs) = True"
| "isArray v = False"

text \<open>
  \<open>field v k\<close> reads the named property \<open>k\<close> of a value that is neither \<open>null\<close> nor
  \<open>undefined\<close>, for the names the program reads. Own properties come first. Of those names
  the built-in prototypes define three: \<^verbatim>\<open>bold\<close> and \<^verbatim>\<open>link\<close> are functions on every string
  (\<^verbatim>\<open>String.prototype.bold\<close>, \<^verbatim>\<open>String.prototype.link\<close>), and a function has its \<^verbatim>\<open>name\<close>.
  \<open>JFun f\<close> is the built-in function of name \<open>f\<close>.
\<close>

fun field :: "jsval \<Rightarrow> string \<Rightarrow> jsval" where
  "field (JObj kvs) k = (case map_of kvs k of Some v \<Rightarrow> v | None \<Rightarrow> JUndefined)"
| "field (JStr s) k = (if k = ''bold'' \<or> k = ''link'' then JFun k else JUndefined)"
| "field (JFun f) k = (if k = ''name'' then JStr f else JUndefined)"
| "field v k = JUndefined"

text \<open>\<^verbatim>\<open>v.k\<close>: a \<^verbatim>\<open>TypeError\<close> on \<open>null\<close> and \<open>undefined\<close>.\<close>

definition get :: "jsval \<Rightarrow> string \<Rightarrow> js_error + jsval" where
  "get v k = (if nullish v then Inl TypeError else Inr (field v k))"

text \<open>\<^verbatim>\<open>v?.k\<close>: \<open>undefined\<close> on \<open>null\<close> and \<open>undefined\<close>, never an exception.\<close>

definition opt :: "jsval \<Rightarrow> string \<Rightarrow> jsval" where
  "opt v k = (if nullish v then JUndefined else field v k)"

text \<open>\<^verbatim>\<open>a || b\<close> and \<^verbatim>\<open>a ?? b\<close> (\<open>b\<close> has no effect in any use the program makes of them).\<close>

definition orElse :: "jsval \<Rightarrow> jsval \<Rightarrow> jsval" where
  "orElse a b = (if truthy a then a else b)"

definition coalesce :: "jsval \<Rightarrow> jsval \<Rightarrow> jsval" where
  "coalesce a b = (if nullish a then b else a)"

text \<open>\<^verbatim>\<open>v[0]\<close> on a value that is neither \<open>null\<close> nor \<open>undefined\<close>.\<close>

fun elem0 :: "jsval \<Rightarrow> jsval" where
  "elem0 (JArr xs) = (case xs of [] \<Rightarrow> JUndefined | x # _ \<Rightarrow> x)"
| "elem0 (JStr s) = (case s of [] \<Rightarrow> JUndefined | c # _ \<Rightarrow> JStr [c])"
| "elem0 (JObj kvs) = (case map_of kvs ''0'' of Some v \<Rightarrow> v | None \<Rightarrow> JUndefined)"
| "elem0 v = JUndefined"

text \<open>
  \<^verbatim>\<open>ToString\<close>, as \<^verbatim>\<open>Array.prototype.join\<close> applies it to each element that is neither
  \<open>null\<close> nor \<open>undefined\<close> (those two contribute the empty string). A plain object prints as
  \<^verbatim>\<open>[object Object]\<close>, a number as its rendering; an object that carries an own \<^verbatim>\<open>toString\<close> property decoded from JSON
  cannot be converted, since that property is not callable.
\<close>

fun intersperse :: "string \<Rightarrow> string list \<Rightarrow> string" where
  "intersperse sep [] = []"
| "intersperse sep [s] = s"
| "intersperse sep (s # t # ss) = s @ sep @ intersperse sep (t # ss)"

fun toString :: "jsval \<Rightarrow> js_error + string" where
  "toString JUndefined = Inr ''undefined''"
| "toString JNull = Inr ''null''"
| "toString (JBool b) = Inr (if b then ''true'' else ''false'')"
| "toString (JNum t s) = Inr s"
| "toString (JStr s) = Inr s"
| "toString (JArr xs) =
     andThen (collect (map (\<lambda>x. if nullish x then Inr [] else toString x) xs))
       (\<lambda>ss. Inr (intersperse '','' ss))"
| "toString (JObj kvs) =
     (case map_of kvs ''toString'' of
        None \<Rightarrow> Inr ''[object Object]''
      | Some f \<Rightarrow> Inl TypeError)"
| "toString (JFun f) = Inr (''function '' @ f @ ''() { [native code] }'')"

text \<open>\<^verbatim>\<open>xs.join(sep)\<close> on an array.\<close>

definition join :: "string \<Rightarrow> jsval list \<Rightarrow> js_error + string" where
  "join sep xs =
     andThen (traverse (\<lambda>x. if nullish x then Inr [] else toString x) xs)
       (\<lambda>ss. Inr (intersperse sep ss))"

section \<open>Normalized data (block-types.ts)\<close>

text \<open>
  \<^verbatim>\<open>RichTextAnnotations\<close> and \<^verbatim>\<open>ParsedRichText\<close>. The interfaces declare booleans and
  strings, but the parser stores whatever truthy value it found, so the fields hold
  run-time values. An unset \<^verbatim>\<open>link\<close> is \<open>JUndefined\<close>.
\<close>

record annotations =
  bold :: jsval
  italic :: jsval
  strikethrough :: jsval
  underline :: jsval
  code :: jsval
  color :: jsval

record span =
  content :: jsval
  link :: jsval
  annotations :: annotations

text \<open>
  \<^verbatim>\<open>ParsedBlock\<close>: one constructor per interface. Heading and list-item blocks keep the
  \<^verbatim>\<open>type\<close> string they were dispatched on; the callout icon is optional.
\<close>

record icon =
  icon_type :: jsval
  icon_emoji :: jsval
  icon_url :: jsval

datatype parsed_block =
    ParagraphBlock "span list" jsval
  | HeadingBlock string "span list" jsval
  | ListItemBlock string "span list" jsval
  | QuoteBlock "span list"
  | CodeBlock string jsval "span list"
  | CalloutBlock "span list" "icon option" jsval
  | DividerBlock
  | ImageBlock jsval "span list"
  | BookmarkBlock jsval "span list"
  | ToggleBlock "span list" jsval
  | ToDoBlock "span list" jsval jsval

text \<open>The \<^verbatim>\<open>type\<close> tag of a parsed block and its \<^verbatim>\<open>hasChildren\<close> property.\<close>

fun block_type :: "parsed_block \<Rightarrow> string" where
  "block_type (ParagraphBlock c h) = ''paragraph''"
| "block_type (HeadingBlock t c g) = t"
| "block_type (ListItemBlock t c h) = t"
| "block_type (QuoteBlock c) = ''quote''"
| "block_type (CodeBlock s l c) = ''code''"
| "block_type (CalloutBlock c i col) = ''callout''"
| "block_type DividerBlock = ''divider''"
| "block_type (ImageBlock u c) = ''image''"
| "block_type (BookmarkBlock u c) = ''bookmark''"
| "block_type (ToggleBlock c h) = ''toggle''"
| "block_type (ToDoBlock c k h) = ''to_do''"

fun hasChildren :: "parsed_block \<Rightarrow> jsval" where
  "hasChildren (ParagraphBlock c h) = h"
| "hasChildren (ListItemBlock t c h) = h"
| "hasChildren (ToggleBlock c h) = h"
| "hasChildren (ToDoBlock c k h) = h"
| "hasChildren b = JUndefined"

text \<open>\<^verbatim>\<open>BlockWithMetadata\<close>: the external identifier, the block and the owned subtree.\<close>

datatype node = Node (nid: jsval) (block: parsed_block) (children: "node list")

section \<open>The parser (block-parser.ts)\<close>

text \<open>The callback of \<^verbatim>\<open>parseRichText\<close>: one run to one span.\<close>

definition parseRun :: "jsval \<Rightarrow> js_error + span" where
  "parseRun rt =
     andThen (get rt ''plain_text'') (\<lambda>plain.
     andThen (get rt ''text'') (\<lambda>text.
     andThen (get rt ''annotations'') (\<lambda>ann.
       Inr \<lparr> content = orElse plain (JStr []),
             link = orElse (opt (opt text ''link'') ''url'') JUndefined,
             annotations = \<lparr>
               bold = orElse (opt ann ''bold'') (JBool False),
               italic = orElse (opt ann ''italic'') (JBool False),
               strikethrough = orElse (opt ann ''strikethrough'') (JBool False),
               underline = orElse (opt ann ''underline'') (JBool False),
               code = orElse (opt ann ''code'') (JBool False),
               color = orElse (opt ann ''color'') (JStr ''default'') \<rparr> \<rparr>)))"

definition parseRichText :: "jsval \<Rightarrow> js_error + span list" where
  "parseRichText richTextArray =
     (if \<not> truthy richTextArray \<or> \<not> isArray richTextArray then Inr []
      else case richTextArray of JArr rts \<Rightarrow> traverse parseRun rts | _ \<Rightarrow> Inr [])"

definition parseParagraph :: "jsval \<Rightarrow> js_error + parsed_block" where
  "parseParagraph blk =
     andThen (get blk ''paragraph'') (\<lambda>p.
     andThen (parseRichText (orElse (opt p ''rich_text'') (JArr []))) (\<lambda>c.
     andThen (get blk ''has_children'') (\<lambda>h.
       Inr (ParagraphBlock c (orElse h (JBool False))))))"

definition parseHeading :: "string \<Rightarrow> jsval \<Rightarrow> js_error + parsed_block" where
  "parseHeading type blk =
     andThen (get blk type) (\<lambda>headingData.
     andThen (parseRichText (orElse (opt headingData ''rich_text'') (JArr []))) (\<lambda>c.
       Inr (HeadingBlock type c (orElse (opt headingData ''is_toggleable'') (JBool False)))))"

definition parseListItem :: "string \<Rightarrow> jsval \<Rightarrow> js_error + parsed_block" where
  "parseListItem type blk =
     andThen (get blk type) (\<lambda>listData.
     andThen (parseRichText (orElse (opt listData ''rich_text'') (JArr []))) (\<lambda>c.
     andThen (get blk ''has_children'') (\<lambda>h.
       Inr (ListItemBlock type c (orElse h (JBool False))))))"

definition parseQuote :: "jsval \<Rightarrow> js_error + parsed_block" where
  "parseQuote blk =
     andThen (get blk ''quote'') (\<lambda>q.
     andThen (parseRichText (orElse (opt q ''rich_text'') (JArr []))) (\<lambda>c.
       Inr (QuoteBlock c)))"

text \<open>
  \<^verbatim>\<open>richText.map(...)\<close> is a call of whatever \<^verbatim>\<open>richText.map\<close> is: on anything but an
  array that is not a function, and the call throws.
\<close>

definition parseCode :: "jsval \<Rightarrow> js_error + parsed_block" where
  "parseCode blk =
     andThen (get blk ''code'') (\<lambda>codeData.
     andThen (case orElse (opt codeData ''rich_text'') (JArr []) of
                JArr rts \<Rightarrow>
                  andThen (traverse (\<lambda>rt. get rt ''plain_text'') rts) (join [])
              | _ \<Rightarrow> Inl TypeError) (\<lambda>content.
     andThen (parseRichText (orElse (opt codeData ''caption'') (JArr []))) (\<lambda>cap.
       Inr (CodeBlock content (orElse (opt codeData ''language'') (JStr ''plain text'')) cap))))"

definition parseCallout :: "jsval \<Rightarrow> js_error + parsed_block" where
  "parseCallout blk =
     andThen (get blk ''callout'') (\<lambda>calloutData.
       let icon =
             (if truthy (opt calloutData ''icon'') then
                (let iconData = field calloutData ''icon'' in
                 Some \<lparr> icon_type = field iconData ''type'',
                        icon_emoji = field iconData ''emoji'',
                        icon_url =
                          (if field iconData ''type'' = JStr ''external''
                           then opt (field iconData ''external'') ''url''
                           else opt (field iconData ''file'') ''url'') \<rparr>)
              else None)
       in andThen (parseRichText (orElse (opt calloutData ''rich_text'') (JArr []))) (\<lambda>c.
            Inr (CalloutBlock c icon (orElse (opt calloutData ''color'') (JStr ''default'')))))"

definition parseDivider :: "jsval \<Rightarrow> js_error + parsed_block" where
  "parseDivider blk = Inr DividerBlock"

definition parseImage :: "jsval \<Rightarrow> js_error + parsed_block option" where
  "parseImage blk =
     andThen (get blk ''image'') (\<lambda>imageData.
       if \<not> truthy imageData then Inr None
       else
         let url = (if field imageData ''type'' = JStr ''external''
                    then opt (field imageData ''external'') ''url''
                    else opt (field imageData ''file'') ''url'')
         in if \<not> truthy url then Inr None
            else andThen (parseRichText (orElse (field imageData ''caption'') (JArr []))) (\<lambda>cap.
                   Inr (Some (ImageBlock url cap))))"

definition parseBookmark :: "jsval \<Rightarrow> js_error + parsed_block" where
  "parseBookmark blk =
     andThen (get blk ''bookmark'') (\<lambda>b.
     andThen (parseRichText (orElse (opt b ''caption'') (JArr []))) (\<lambda>cap.
       Inr (BookmarkBlock (orElse (opt b ''url'') (JStr [])) cap)))"

definition parseToggle :: "jsval \<Rightarrow> js_error + parsed_block" where
  "parseToggle blk =
     andThen (get blk ''toggle'') (\<lambda>t.
     andThen (parseRichText (orElse (opt t ''rich_text'') (JArr []))) (\<lambda>c.
     andThen (get blk ''has_children'') (\<lambda>h.
       Inr (ToggleBlock c (orElse h (JBool False))))))"

definition parseToDo :: "jsval \<Rightarrow> js_error + parsed_block" where
  "parseToDo blk =
     andThen (get blk ''to_do'') (\<lambda>t.
     andThen (parseRichText (orElse (opt t ''rich_text'') (JArr []))) (\<lambda>c.
     andThen (get blk ''has_children'') (\<lambda>h.
       Inr (ToDoBlock c (orElse (opt t ''checked'') (JBool False)) (orElse h (JBool False))))))"

text \<open>A parser that always produces a block, seen as one that may return \<^verbatim>\<open>null\<close>.\<close>

definition always :: "js_error + parsed_block \<Rightarrow> js_error + parsed_block option" where
  "always r = andThen r (\<lambda>b. Inr (Some b))"

text \<open>
  \<^verbatim>\<open>parseBlock\<close>: the \<^verbatim>\<open>switch\<close> compares \<^verbatim>\<open>block.type\<close> with each label by \<^verbatim>\<open>===\<close>, so
  only a string can match. \<open>None\<close> is the \<^verbatim>\<open>null\<close> of the \<^verbatim>\<open>default\<close> branch.
\<close>

definition parseBlock :: "jsval \<Rightarrow> js_error + parsed_block option" where
  "parseBlock blk =
     andThen (get blk ''type'') (\<lambda>type.
       if type = JStr ''paragraph'' then always (parseParagraph blk)
       else if type = JStr ''heading_1'' then always (parseHeading ''heading_1'' blk)
       else if type = JStr ''heading_2'' then always (parseHeading ''heading_2'' blk)
       else if type = JStr ''heading_3'' then always (parseHeading ''heading_3'' blk)
       else if type = JStr ''bulleted_list_item''
         then always (parseListItem ''bulleted_list_item'' blk)
       else if type = JStr ''numbered_list_item''
         then always (parseListItem ''numbered_list_item'' blk)
       else if type = JStr ''quote'' then always (parseQuote blk)
       else if type = JStr ''code'' then always (parseCode blk)
       else if type = JStr ''callout'' then always (parseCallout blk)
       else if type = JStr ''divider'' then always (parseDivider blk)
       else if type = JStr ''image'' then parseImage blk
       else if type = JStr ''bookmark'' then always (parseBookmark blk)
       else if type = JStr ''toggle'' then always (parseToggle blk)
       else if type = JStr ''to_do'' then always (parseToDo blk)
       else Inr None)"

text \<open>
  \<^verbatim>\<open>parseBlocks\<close>: the \<^verbatim>\<open>for\<close> loop, with the array \<^verbatim>\<open>parsedBlocks\<close> it pushes to as the
  accumulator. A parsed block is an object, so \<^verbatim>\<open>if (parsedBlock)\<close> fails on \<^verbatim>\<open>null\<close> only.
\<close>

fun parseBlocks_loop :: "node list \<Rightarrow> jsval list \<Rightarrow> js_error + node list" where
  "parseBlocks_loop parsedBlocks [] = Inr parsedBlocks"
| "parseBlocks_loop parsedBlocks (blk # blks) =
     andThen (parseBlock blk) (\<lambda>parsedBlock.
       case parsedBlock of
         Some b \<Rightarrow>
           andThen (get blk ''id'') (\<lambda>i.
             parseBlocks_loop (parsedBlocks @ [Node i b []]) blks)
       | None \<Rightarrow> parseBlocks_loop parsedBlocks blks)"

definition parseBlocks :: "jsval list \<Rightarrow> js_error + node list" where
  "parseBlocks blocks = parseBlocks_loop [] blocks"

section \<open>The rich text renderer (block-renderer.tsx)\<close>

text \<open>
  The React elements \<^verbatim>\<open>RichTextRenderer\<close> builds: text, the five style elements
  (\<^verbatim>\<open>strong\<close>, \<^verbatim>\<open>em\<close>, \<^verbatim>\<open>s\<close>, \<^verbatim>\<open>u\<close>, \<^verbatim>\<open>code\<close> of class \<^verbatim>\<open>inline-code\<close>), the
  hyperlink with its \<^verbatim>\<open>href\<close> (always \<^verbatim>\<open>target="_blank" rel="noopener noreferrer"\<close>) and
  the \<^verbatim>\<open>span\<close> with its key.
\<close>

datatype markup =
    Text jsval
  | Strong markup
  | Em markup
  | Strike markup
  | Underlined markup
  | InlineCode markup
  | Anchor jsval markup
  | SpanEl nat markup

text \<open>The body of the \<^verbatim>\<open>map\<close> callback up to the \<^verbatim>\<open>return\<close>: each \<^verbatim>\<open>if\<close> rewraps \<^verbatim>\<open>element\<close>.\<close>

definition renderElement :: "span \<Rightarrow> markup" where
  "renderElement text =
     (let element = Text (content text);
          element = (if truthy (bold (annotations text)) then Strong element else element);
          element = (if truthy (italic (annotations text)) then Em element else element);
          element = (if truthy (strikethrough (annotations text)) then Strike element else element);
          element = (if truthy (underline (annotations text)) then Underlined element else element);
          element = (if truthy (code (annotations text)) then InlineCode element else element);
          element = (if truthy (link text) then Anchor (link text) element else element)
      in element)"

definition RichTextRenderer :: "span list \<Rightarrow> markup list" where
  "RichTextRenderer spans = map (\<lambda>(index, text). SpanEl index (renderElement text)) (enumerate 0 spans)"

text \<open>
  The nesting the specification words describe, for comparison: strikethrough innermost,
  then underline, italic, bold, inline code outermost, and the hyperlink around it all.
\<close>

definition spec_renderElement :: "span \<Rightarrow> markup" where
  "spec_renderElement text =
     (let element = Text (content text);
          element = (if truthy (strikethrough (annotations text)) then Strike element else element);
          element = (if truthy (underline (annotations text)) then Underlined element else element);
          element = (if truthy (italic (annotations text)) then Em element else element);
          element = (if truthy (bold (annotations text)) then Strong element else element);
          element = (if truthy (code (annotations text)) then InlineCode element else element);
          element = (if truthy (link text) then Anchor (link text) element else element)
      in element)"

text \<open>
  A style wrapper is a flag together with the element it adds; applying a list of wrappers
  puts the first one innermost.
\<close>

definition applyWrappers :: "(jsval \<times> (markup \<Rightarrow> markup)) list \<Rightarrow> markup \<Rightarrow> markup" where
  "applyWrappers ws e = foldl (\<lambda>acc (flag, wrap). if truthy flag then wrap acc else acc) e ws"

section \<open>The block tree fetcher (post-detail.ts)\<close>

text \<open>
  A fetch ends with a value or with a thrown error, or it does not end: the recursion follows
  whatever the API answers, which nothing in the code bounds. \<open>Timeout\<close> is the outcome of a
  run cut off at a given nesting depth.
\<close>

datatype 'a outcome = Done 'a | Throw js_error | Timeout

definition thenDo :: "'a outcome \<Rightarrow> ('a \<Rightarrow> 'b outcome) \<Rightarrow> 'b outcome" where
  "thenDo m f = (case m of Done v \<Rightarrow> f v | Throw e \<Rightarrow> Throw e | Timeout \<Rightarrow> Timeout)"

definition lift :: "js_error + 'a \<Rightarrow> 'a outcome" where
  "lift r = (case r of Inl e \<Rightarrow> Throw e | Inr v \<Rightarrow> Done v)"

text \<open>
  The external call \<^verbatim>\<open>notion.blocks.children.list\<close> is a parameter: for a block identifier
  it rejects with an error or resolves to a response, of which the code reads \<^verbatim>\<open>results\<close>.
\<close>

type_synonym children_api = "jsval \<Rightarrow> js_error + jsval list"

definition canHaveChildren :: "parsed_block \<Rightarrow> bool" where
  "canHaveChildren b =
     (block_type b = ''paragraph'' \<or>
      block_type b = ''bulleted_list_item'' \<or>
      block_type b = ''numbered_list_item'' \<or>
      block_type b = ''toggle'' \<or>
      block_type b = ''to_do'')"

text \<open>
  The \<^verbatim>\<open>for\<close> loop of \<^verbatim>\<open>fetchBlocksRecursively\<close>, one block after the other; \<open>recur\<close> is the
  recursive call. Assigning \<^verbatim>\<open>block.children\<close> gives the node its new subtree.
\<close>

fun expandChildren :: "(jsval \<Rightarrow> node list outcome) \<Rightarrow> node list \<Rightarrow> node list outcome" where
  "expandChildren recur [] = Done []"
| "expandChildren recur (b # bs) =
     (if canHaveChildren (block b) \<and> truthy (hasChildren (block b))
      then thenDo (recur (nid b)) (\<lambda>cs.
           thenDo (expandChildren recur bs) (\<lambda>rest.
             Done (Node (nid b) (block b) cs # rest)))
      else thenDo (expandChildren recur bs) (\<lambda>rest. Done (b # rest)))"

primrec fetchBlocksRecursively :: "nat \<Rightarrow> children_api \<Rightarrow> jsval \<Rightarrow> node list outcome" where
  "fetchBlocksRecursively 0 api blockId = Timeout"
| "fetchBlocksRecursively (Suc depth) api blockId =
     thenDo (lift (api blockId)) (\<lambda>results.
     thenDo (lift (parseBlocks results)) (\<lambda>blocks.
       expandChildren (fetchBlocksRecursively depth api) blocks))"

text \<open>\<^verbatim>\<open>getPageBlocks\<close>: the \<^verbatim>\<open>try\<close>/\<^verbatim>\<open>catch\<close> around the awaited fetch.\<close>

definition getPageBlocks :: "nat \<Rightarrow> children_api \<Rightarrow> jsval \<Rightarrow> node list outcome" where
  "getPageBlocks depth api pageId =
     (case fetchBlocksRecursively depth api pageId of
        Done blocks \<Rightarrow> Done blocks
      | Throw e \<Rightarrow> Done []
      | Timeout \<Rightarrow> Timeout)"

section \<open>Post metadata (notion-parser.ts)\<close>

record notion_post =
  post_id :: jsval
  title :: jsval
  status :: jsval
  createdDate :: jsval
  series :: jsval
  categories :: "jsval list"
  thumbnail :: jsval

definition getTitle :: "jsval \<Rightarrow> jsval" where
  "getTitle p =
     (let t = opt p ''title'';
          first = (if nullish t then JUndefined else elem0 t)
      in coalesce (opt first ''plain_text'') (JStr []))"

definition getDate :: "jsval \<Rightarrow> jsval" where
  "getDate p = coalesce (opt (opt p ''date'') ''start'') (JStr [])"

definition getStatus :: "jsval \<Rightarrow> jsval" where
  "getStatus p = coalesce (opt (opt p ''status'') ''name'') (JStr [])"

definition getSeries :: "jsval \<Rightarrow> jsval" where
  "getSeries p = coalesce (opt (opt p ''select'') ''name'') JNull"

text \<open>
  \<^verbatim>\<open>prop?.multi_select?.map(...)\<close>: on a value that is present but no array, \<^verbatim>\<open>map\<close> is
  not a function and the call throws.
\<close>

definition getCategories :: "jsval \<Rightarrow> js_error + jsval list" where
  "getCategories p =
     (let ms = opt p ''multi_select'' in
      if nullish ms then Inr []
      else case ms of
             JArr items \<Rightarrow> traverse (\<lambda>item. get item ''name'') items
           | _ \<Rightarrow> Inl TypeError)"

definition getCover :: "jsval \<Rightarrow> js_error + jsval" where
  "getCover page =
     andThen (get page ''cover'') (\<lambda>cover.
       if \<not> truthy cover then Inr JNull
       else if field cover ''type'' = JStr ''file''
         then get (field cover ''file'') ''url''
         else get (field cover ''external'') ''url'')"

text \<open>The constructor of \<^verbatim>\<open>NotionPost\<close>, its assignments in order.\<close>

definition NotionPost :: "jsval \<Rightarrow> js_error + notion_post" where
  "NotionPost page =
     andThen (get page ''properties'') (\<lambda>props.
     andThen (get page ''id'') (\<lambda>i.
     andThen (get props ''title'') (\<lambda>t.
     andThen (get props ''status'') (\<lambda>s.
     andThen (get props ''created_date'') (\<lambda>d.
     andThen (get props ''series'') (\<lambda>se.
     andThen (get props ''categories'') (\<lambda>c.
     andThen (getCategories c) (\<lambda>cats.
     andThen (getCover page) (\<lambda>cov.
       Inr \<lparr> post_id = i, title = getTitle t, status = getStatus s,
             createdDate = getDate d, series = getSeries se,
             categories = cats, thumbnail = cov \<rparr>)))))))))"

section \<open>Vocabulary of the properties\<close>

text \<open>The annotations of a run that carries none.\<close>

definition defaultAnnotations :: annotations where
  "defaultAnnotations =
     \<lparr> bold = JBool False, italic = JBool False, strikethrough = JBool False,
       underline = JBool False, code = JBool False, color = JStr ''default'' \<rparr>"

text \<open>
  The URL an image record offers: the external one when the image's type tag is
  \<^verbatim>\<open>external\<close>, the file one otherwise.
\<close>

definition imageUrl :: "jsval \<Rightarrow> jsval" where
  "imageUrl imageData =
     (if field imageData ''type'' = JStr ''external''
      then opt (field imageData ''external'') ''url''
      else opt (field imageData ''file'') ''url'')"

text \<open>The labels of \<^verbatim>\<open>BlockType\<close>.\<close>

definition recognizedTypes :: "string list" where
  "recognizedTypes =
     [''paragraph'', ''heading_1'', ''heading_2'', ''heading_3'', ''bulleted_list_item'',
      ''numbered_list_item'', ''quote'', ''code'', ''callout'', ''divider'', ''image'',
      ''bookmark'', ''toggle'', ''to_do'']"

text \<open>
  A record survives batch parsing when the block parser returns a block for it; its stub
  pairs that block with the record's identifier and no children.
\<close>

definition survives :: "jsval \<Rightarrow> bool" where
  "survives blk = (case parseBlock blk of Inr (Some b) \<Rightarrow> True | _ \<Rightarrow> False)"

definition stubOf :: "jsval \<Rightarrow> node" where
  "stubOf blk = Node (field blk ''id'') (the (projr (parseBlock blk))) []"

text \<open>
  A rich text value has a run that is \<open>null\<close> or \<open>undefined\<close>.
\<close>

definition hasNullishRun :: "jsval \<Rightarrow> bool" where
  "hasNullishRun v = (case v of JArr rts \<Rightarrow> list_ex nullish rts | _ \<Rightarrow> False)"

text \<open>
  The block parser throws on a record.
\<close>

definition throwsOn :: "jsval \<Rightarrow> bool" where
  "throwsOn blk = isl (parseBlock blk)"

text \<open>
  The runs of a code body: those of the array when the body is there (truthy), none when
  the record has no body. A run is a text run when it is an object, or any other value but
  \<open>null\<close> and \<open>undefined\<close>, whose plain text is a string or absent; its text is that string,
  empty when absent.
\<close>

definition bodyRuns :: "jsval \<Rightarrow> jsval list \<Rightarrow> bool" where
  "bodyRuns body rts = (if truthy body then body = JArr rts else rts = [])"

definition textRun :: "jsval \<Rightarrow> bool" where
  "textRun rt =
     (\<not> nullish rt \<and>
      (case field rt ''plain_text'' of
         JStr s \<Rightarrow> True | JUndefined \<Rightarrow> True | JNull \<Rightarrow> True | _ \<Rightarrow> False))"

definition plainText :: "jsval \<Rightarrow> string" where
  "plainText rt = (case field rt ''plain_text'' of JStr s \<Rightarrow> s | _ \<Rightarrow> [])"

text \<open>The seven variants the fetcher treats as leaves.\<close>

fun leafVariant :: "parsed_block \<Rightarrow> bool" where
  "leafVariant (HeadingBlock t c g) = True"
| "leafVariant (QuoteBlock c) = True"
| "leafVariant (CodeBlock s l c) = True"
| "leafVariant (CalloutBlock c i col) = True"
| "leafVariant DividerBlock = True"
| "leafVariant (ImageBlock u c) = True"
| "leafVariant (BookmarkBlock u c) = True"
| "leafVariant b = False"

text \<open>
  The shape of a fetched tree, at every node: a leaf variant has no children, and a node
  that has children is of a type the loop expands and carries a true children flag.
\<close>

fun wellShaped :: "node \<Rightarrow> bool" where
  "wellShaped (Node i b cs) =
     ((leafVariant b \<longrightarrow> cs = []) \<and>
      (cs \<noteq> [] \<longrightarrow> canHaveChildren b \<and> truthy (hasChildren b)) \<and>
      (\<forall>c\<in>set cs. wellShaped c))"

text \<open>
  \<open>apiCallFails depth api blockId e\<close>: fetching \<open>blockId\<close> reaches, at some level of the
  recursion, an API call that fails with \<open>e\<close>. Either the call for \<open>blockId\<close> itself
  fails, or it answers, the siblings before some block \<open>b\<close> are expanded without incident,
  \<open>b\<close> is expanded too, and the failing call is reached while fetching below \<open>b\<close>.
\<close>

inductive apiCallFails :: "nat \<Rightarrow> children_api \<Rightarrow> jsval \<Rightarrow> js_error \<Rightarrow> bool" where
  here: "api blockId = Inl e \<Longrightarrow> apiCallFails (Suc depth) api blockId e"
| below: "api blockId = Inr results \<Longrightarrow>
          parseBlocks results = Inr (pre @ b # post) \<Longrightarrow>
          expandChildren (fetchBlocksRecursively depth api) pre = Done ready \<Longrightarrow>
          canHaveChildren (block b) \<Longrightarrow> truthy (hasChildren (block b)) \<Longrightarrow>
          apiCallFails depth api (nid b) e \<Longrightarrow>
          apiCallFails (Suc depth) api blockId e"

text \<open>The style wrappers of a span in the order the renderer applies them, innermost first.\<close>

definition styleOrder :: "span \<Rightarrow> (jsval \<times> (markup \<Rightarrow> markup)) list" where
  "styleOrder text =
     [(bold (annotations text), Strong),
      (italic (annotations text), Em),
      (strikethrough (annotations text), Strike),
      (underline (annotations text), Underlined),
      (code (annotations text), InlineCode)]"

subsection \<open>Sample inputs\<close>

text \<open>
  A raw block record with an empty rich text, and two API behaviours: one that serves a
  heading and a paragraph, both flagged as having children, and one whose call for the second
  expandable block fails. The page object has well-formed properties and a cover to choose.
\<close>

definition rawBlock :: "string \<Rightarrow> string \<Rightarrow> bool \<Rightarrow> jsval" where
  "rawBlock i t c =
     JObj [(''id'', JStr i), (''type'', JStr t), (t, JObj [(''rich_text'', JArr [])]),
           (''has_children'', JBool c)]"

definition exampleApi :: children_api where
  "exampleApi blockId =
     (if blockId = JStr ''page''
        then Inr [rawBlock ''h1'' ''heading_1'' True, rawBlock ''p1'' ''paragraph'' True]
      else if blockId = JStr ''p1'' then Inr [rawBlock ''q1'' ''quote'' True]
      else Inr [])"

definition failingApi :: children_api where
  "failingApi blockId =
     (if blockId = JStr ''page''
        then Inr [rawBlock ''p1'' ''paragraph'' True, rawBlock ''t1'' ''toggle'' True]
      else if blockId = JStr ''p1'' then Inr [rawBlock ''d1'' ''divider'' False]
      else Inl (ApiError ''rate_limited''))"

definition examplePage :: "jsval \<Rightarrow> jsval" where
  "examplePage cover =
     JObj [(''id'', JStr ''abc123''),
           (''properties'', JObj
              [(''title'', JObj [(''title'', JArr [JObj [(''plain_text'', JStr ''Post'')]])]),
               (''categories'', JObj [(''multi_select'', JArr [JObj [(''name'', JStr ''TypeScript'')]])])]),
           (''cover'', cover)]"

section \<open>Evaluation lemmas\<close>

lemma andThen_simps [simp]: "andThen (Inl e) f = Inl e" "andThen (Inr v) f = f v"
  by (simp_all add: andThen_def)

lemma always_simps [simp]: "always (Inl e) = Inl e" "always (Inr b) = Inr (Some b)"
  by (simp_all add: always_def)

lemma thenDo_simps [simp]:
  "thenDo (Done v) f = f v" "thenDo (Throw e) f = Throw e" "thenDo Timeout f = Timeout"
  by (simp_all add: thenDo_def)

lemma lift_simps [simp]: "lift (Inl e) = Throw e" "lift (Inr v) = Done v"
  by (simp_all add: lift_def)

lemma thenDo_Done:
  "thenDo m f = Done out \<Longrightarrow> \<exists>v. m = Done v \<and> f v = Done out"
  by (cases m) simp_all

lemma get_simps: "nullish v \<Longrightarrow> get v k = Inl TypeError" "\<not> nullish v \<Longrightarrow> get v k = Inr (field v k)"
  by (simp_all add: get_def)

lemma get_error: "get v k = Inl e \<Longrightarrow> e = TypeError"
  by (simp add: get_def split: if_splits)

lemma field_nullish: "nullish v \<Longrightarrow> field v k = JUndefined"
  by (cases v) simp_all

lemma field_eq_not_nullish: "field v k = JStr s \<Longrightarrow> \<not> nullish v"
  by (cases v) simp_all

lemma traverse_Nil [simp]: "traverse f [] = Inr []"
  by (simp add: traverse_def)

lemma traverse_Cons [simp]:
  "traverse f (x # xs) = andThen (f x) (\<lambda>y. andThen (traverse f xs) (\<lambda>ys. Inr (y # ys)))"
  by (simp add: traverse_def)

lemma traverse_all_ok:
  "(\<forall>x\<in>set xs. \<exists>y. f x = Inr y) \<Longrightarrow>
   \<exists>ys. traverse f xs = Inr ys \<and> length ys = length xs \<and> (\<forall>i<length xs. f (xs ! i) = Inr (ys ! i))"
proof (induction xs)
  case Nil
  then show ?case by simp
next
  case (Cons x xs)
  then obtain y where y: "f x = Inr y" by auto
  from Cons obtain ys where ys: "traverse f xs = Inr ys" "length ys = length xs"
    "\<forall>i<length xs. f (xs ! i) = Inr (ys ! i)" by auto
  have "\<forall>i<length (x # xs). f ((x # xs) ! i) = Inr ((y # ys) ! i)"
    using y ys(3) by (auto simp: nth_Cons split: nat.splits)
  then show ?case using y ys by simp
qed

lemma traverse_some_fail:
  "(\<And>x e. f x = Inl e \<Longrightarrow> e = TypeError) \<Longrightarrow> \<exists>x\<in>set xs. \<exists>e. f x = Inl e \<Longrightarrow> traverse f xs = Inl TypeError"
proof (induction xs)
  case Nil
  then show ?case by simp
next
  case (Cons x xs)
  show ?case
  proof (cases "f x")
    case (Inl e)
    then show ?thesis using Cons.prems(1) by simp
  next
    case (Inr y)
    then have "\<exists>x\<in>set xs. \<exists>e. f x = Inl e" using Cons.prems(2) by auto
    then have "traverse f xs = Inl TypeError" using Cons by blast
    then show ?thesis using Inr by simp
  qed
qed

lemma traverse_error:
  "(\<And>x e. f x = Inl e \<Longrightarrow> e = TypeError) \<Longrightarrow> traverse f xs = Inl e \<Longrightarrow> e = TypeError"
proof (induction xs arbitrary: e)
  case Nil
  then show ?case by simp
next
  case (Cons x xs)
  show ?case
  proof (cases "f x")
    case (Inl e')
    then show ?thesis using Cons.prems by auto
  next
    case (Inr y)
    then show ?thesis using Cons by (cases "traverse f xs") auto
  qed
qed

lemmas eval_defs = parseBlock_def parseParagraph_def parseHeading_def parseListItem_def
  parseQuote_def parseCode_def parseCallout_def parseDivider_def parseImage_def
  parseBookmark_def parseToggle_def parseToDo_def parseRichText_def parseRun_def
  get_def opt_def orElse_def join_def

section \<open>The rich text normalizer\<close>

lemma parseRun_ok: "\<not> nullish rt \<Longrightarrow> \<exists>s. parseRun rt = Inr s"
  by (simp add: parseRun_def get_simps)

lemma parseRun_null: "nullish rt \<Longrightarrow> parseRun rt = Inl TypeError"
  by (simp add: parseRun_def get_simps)

lemma parseRun_error: "parseRun rt = Inl e \<Longrightarrow> nullish rt \<and> e = TypeError"
  by (cases "nullish rt") (simp_all add: parseRun_def get_simps)

lemma parseRichText_non_array: "\<not> isArray v \<Longrightarrow> parseRichText v = Inr []"
  by (simp add: parseRichText_def)

lemma parseRichText_array: "parseRichText (JArr rts) = traverse parseRun rts"
  by (simp add: parseRichText_def)

lemma parseRichText_ok:
  "\<not> hasNullishRun v \<Longrightarrow>
   \<exists>spans. parseRichText v = Inr spans \<and> (\<forall>rts. v = JArr rts \<longrightarrow> length spans = length rts)"
proof (cases v)
  case (JArr rts)
  assume "\<not> hasNullishRun v"
  then have "\<forall>rt\<in>set rts. \<exists>s. parseRun rt = Inr s"
    using JArr parseRun_ok by (auto simp: hasNullishRun_def list_ex_iff)
  from traverse_all_ok [OF this] show ?thesis using JArr by (auto simp: parseRichText_array)
qed (simp_all add: parseRichText_def)

lemma parseRichText_throws: "hasNullishRun v \<Longrightarrow> parseRichText v = Inl TypeError"
proof (cases v)
  case (JArr rts)
  assume "hasNullishRun v"
  then have "\<exists>x\<in>set rts. \<exists>e. parseRun x = Inl e"
    using JArr parseRun_null by (auto simp: hasNullishRun_def list_ex_iff)
  then have "traverse parseRun rts = Inl TypeError"
    using traverse_some_fail [of parseRun rts] parseRun_error by blast
  then show ?thesis using JArr by (simp add: parseRichText_array)
qed (simp_all add: hasNullishRun_def)

lemma parseRichText_orElse: "parseRichText (orElse v (JArr [])) = parseRichText v"
  by (cases v) (simp_all add: orElse_def parseRichText_def)

text \<open>
  C5, as amended. On an array none of whose elements is \<open>null\<close> or \<open>undefined\<close>, the
  normalizer returns exactly one span per run, in the order of the runs, so the output is as
  long as the input; on an input that is no array (\<open>null\<close> and \<open>undefined\<close> among them) it
  returns the empty sequence.
\<close>

theorem parseRichText_one_span_per_run:
  "(\<not> isArray v \<longrightarrow> parseRichText v = Inr []) \<and>
   ((\<forall>rt\<in>set rts. \<not> nullish rt) \<longrightarrow>
      (\<exists>spans. parseRichText (JArr rts) = Inr spans \<and> length spans = length rts \<and>
         (\<forall>i<length rts. parseRun (rts ! i) = Inr (spans ! i))))"
proof (intro conjI impI)
  assume "\<not> isArray v"
  then show "parseRichText v = Inr []" by (rule parseRichText_non_array)
next
  assume "\<forall>rt\<in>set rts. \<not> nullish rt"
  then have "\<forall>rt\<in>set rts. \<exists>s. parseRun rt = Inr s" using parseRun_ok by blast
  from traverse_all_ok [OF this]
  show "\<exists>spans. parseRichText (JArr rts) = Inr spans \<and> length spans = length rts \<and>
         (\<forall>i<length rts. parseRun (rts ! i) = Inr (spans ! i))"
    by (simp add: parseRichText_array)
qed

text \<open>
  The amended C5 at a two-element array (an object and a string) and at \<open>null\<close>.
\<close>

theorem parseRichText_one_span_per_run_witness:
  "parseRichText JNull = Inr [] \<and>
   (\<exists>spans. parseRichText (JArr [JObj [(''plain_text'', JStr ''a'')], JStr ''b'']) = Inr spans \<and>
      length spans = 2)"
  using parseRichText_one_span_per_run
    [of JNull "[JObj [(''plain_text'', JStr ''a'')], JStr ''b'']"]
  by auto

text \<open>
  C5 as stated fails: on the array of a run followed by \<open>undefined\<close>, reading
  \<^verbatim>\<open>rt.plain_text\<close> of the second element throws, and no sequence is returned.
\<close>

theorem parseRichText_array_with_undefined_throws:
  "parseRichText (JArr [JObj [(''plain_text'', JStr ''a'')], JUndefined]) = Inl TypeError"
  by (simp add: parseRichText_def parseRun_def get_def)

text \<open>
  C2, as amended. The normalizer throws a \<^verbatim>\<open>TypeError\<close> exactly on an array that has a
  \<open>null\<close> or \<open>undefined\<close> element; on every other input, of whatever shape (no array at all,
  or an array of strings, numbers, booleans, arrays or objects with fields missing), it
  returns a sequence of spans.
\<close>

theorem parseRichText_throws_only_on_nullish_run:
  "(if \<exists>rts. v = JArr rts \<and> (\<exists>rt\<in>set rts. nullish rt)
    then parseRichText v = Inl TypeError
    else \<exists>spans. parseRichText v = Inr spans)"
proof (cases v)
  case (JArr rts)
  show ?thesis
  proof (cases "\<exists>rt\<in>set rts. nullish rt")
    case True
    then have "\<exists>x\<in>set rts. \<exists>e. parseRun x = Inl e" using parseRun_null by blast
    then have "traverse parseRun rts = Inl TypeError"
      using traverse_some_fail [of parseRun rts] parseRun_error by blast
    then show ?thesis using True JArr by (simp add: parseRichText_array)
  next
    case False
    then have "\<forall>rt\<in>set rts. \<exists>s. parseRun rt = Inr s" using parseRun_ok by blast
    from traverse_all_ok [OF this] show ?thesis using False JArr
      by (auto simp: parseRichText_array)
  qed
qed (simp_all add: parseRichText_def)

text \<open>
  The amended C2 at an array holding \<open>null\<close>, at an array of non-object elements, and at
  an object passed in place of the array.
\<close>

theorem parseRichText_throws_only_on_nullish_run_witness:
  "parseRichText (JArr [JObj [], JNull, JStr ''x'']) = Inl TypeError \<and>
   (\<exists>spans. parseRichText (JArr [JNum True ''7'', JStr ''x'', JBool True, JArr [], JObj []]) = Inr spans) \<and>
   (\<exists>spans. parseRichText (JObj [(''plain_text'', JStr ''x'')]) = Inr spans)"
  using parseRichText_throws_only_on_nullish_run [of "JArr [JObj [], JNull, JStr ''x'']"]
    parseRichText_throws_only_on_nullish_run [of "JArr [JNum True ''7'', JStr ''x'', JBool True, JArr [], JObj []]"]
    parseRichText_throws_only_on_nullish_run [of "JObj [(''plain_text'', JStr ''x'')]"]
  by simp

text \<open>
  C2 as stated fails: on the array whose only element is \<open>null\<close> the normalizer throws.
\<close>

theorem parseRichText_array_with_null_throws:
  "parseRichText (JArr [JNull]) = Inl TypeError"
  by (simp add: parseRichText_def parseRun_def get_def)

text \<open>
  C9. A run record (any value but \<open>null\<close> and \<open>undefined\<close>) is normalized without failure.
  When its annotations object is absent or \<open>null\<close>, the span carries the complete default
  annotations: the five flags false and the color \<^verbatim>\<open>"default"\<close>. Each annotation field is
  decided by the run's field of the same name alone: it is that field's value when truthy
  and its own default (false, or \<^verbatim>\<open>"default"\<close> for the color) when absent or falsy, whatever the
  other fields hold.
\<close>

theorem annotations_default_per_field:
  assumes "\<not> nullish rt"
  shows "\<exists>s. parseRun rt = Inr s \<and> parseRichText (JArr [rt]) = Inr [s] \<and>
     (nullish (field rt ''annotations'') \<longrightarrow> annotations s = defaultAnnotations) \<and>
     bold (annotations s) =
       (if truthy (opt (field rt ''annotations'') ''bold'')
        then opt (field rt ''annotations'') ''bold'' else JBool False) \<and>
     italic (annotations s) =
       (if truthy (opt (field rt ''annotations'') ''italic'')
        then opt (field rt ''annotations'') ''italic'' else JBool False) \<and>
     strikethrough (annotations s) =
       (if truthy (opt (field rt ''annotations'') ''strikethrough'')
        then opt (field rt ''annotations'') ''strikethrough'' else JBool False) \<and>
     underline (annotations s) =
       (if truthy (opt (field rt ''annotations'') ''underline'')
        then opt (field rt ''annotations'') ''underline'' else JBool False) \<and>
     code (annotations s) =
       (if truthy (opt (field rt ''annotations'') ''code'')
        then opt (field rt ''annotations'') ''code'' else JBool False) \<and>
     color (annotations s) =
       (if truthy (opt (field rt ''annotations'') ''color'')
        then opt (field rt ''annotations'') ''color'' else JStr ''default'')"
  using assms
  by (simp add: parseRichText_array parseRun_def get_simps opt_def orElse_def defaultAnnotations_def)

text \<open>
  C9 at a run that has a plain text and nothing else, and at a run whose annotations give
  only italic and a color: those two are kept, the other four default.
\<close>

theorem annotations_default_per_field_witness:
  "parseRichText (JArr [JObj [(''plain_text'', JStr ''hi'')]]) =
     Inr [\<lparr> content = JStr ''hi'', link = JUndefined, annotations = defaultAnnotations \<rparr>] \<and>
   parseRichText (JArr [JObj [(''plain_text'', JStr ''hi''),
                              (''annotations'', JObj [(''italic'', JBool True),
                                                      (''color'', JStr ''red'')])]]) =
     Inr [\<lparr> content = JStr ''hi'', link = JUndefined,
            annotations = \<lparr> bold = JBool False, italic = JBool True,
              strikethrough = JBool False, underline = JBool False, code = JBool False,
              color = JStr ''red'' \<rparr> \<rparr>]"
proof -
  have h: "\<not> nullish (JObj [(''plain_text'', JStr ''hi'')])"
    "\<not> nullish (JObj [(''plain_text'', JStr ''hi''),
                              (''annotations'', JObj [(''italic'', JBool True),
                                                      (''color'', JStr ''red'')])])" by simp_all
  from annotations_default_per_field [OF h(1)] annotations_default_per_field [OF h(2)]
  show ?thesis
    by (auto simp: parseRun_def get_def opt_def orElse_def defaultAnnotations_def)
qed

section \<open>The block parser\<close>

lemma parseBlock_null: "nullish blk \<Longrightarrow> parseBlock blk = Inl TypeError"
  by (simp add: parseBlock_def get_simps)

lemma parseBlock_unrecognized:
  "\<not> nullish blk \<Longrightarrow> field blk ''type'' \<notin> JStr ` set recognizedTypes \<Longrightarrow> parseBlock blk = Inr None"
  by (simp add: parseBlock_def get_simps recognizedTypes_def image_iff)

lemma parseBlock_image:
  "field blk ''type'' = JStr ''image'' \<Longrightarrow> parseBlock blk = parseImage blk"
  by (frule field_eq_not_nullish) (simp add: parseBlock_def get_simps)

lemma parseBlock_code:
  "field blk ''type'' = JStr ''code'' \<Longrightarrow> parseBlock blk = always (parseCode blk)"
  by (frule field_eq_not_nullish) (simp add: parseBlock_def get_simps)

lemma opt_is_field: "opt v k = field v k"
  by (cases v) (simp_all add: opt_def)

lemma andThen_Inr: "andThen m f = Inr y \<Longrightarrow> \<exists>v. m = Inr v \<and> f v = Inr y"
  by (cases m) simp_all

lemma always_Inr: "always r = Inr (Some pb) \<Longrightarrow> r = Inr pb"
  by (cases r) simp_all

lemma always_Some: "always r = Inr x \<Longrightarrow> \<exists>pb. x = Some pb"
  by (cases r) auto

lemma parser_type_tags:
  "parseParagraph b = Inr pb \<Longrightarrow> block_type pb = ''paragraph''"
  "parseHeading t b = Inr pb \<Longrightarrow> block_type pb = t"
  "parseListItem t b = Inr pb \<Longrightarrow> block_type pb = t"
  "parseQuote b = Inr pb \<Longrightarrow> block_type pb = ''quote''"
  "parseCode b = Inr pb \<Longrightarrow> block_type pb = ''code''"
  "parseCallout b = Inr pb \<Longrightarrow> block_type pb = ''callout''"
  "parseDivider b = Inr pb \<Longrightarrow> block_type pb = ''divider''"
  "parseImage b = Inr (Some pb) \<Longrightarrow> block_type pb = ''image''"
  "parseBookmark b = Inr pb \<Longrightarrow> block_type pb = ''bookmark''"
  "parseToggle b = Inr pb \<Longrightarrow> block_type pb = ''toggle''"
  "parseToDo b = Inr pb \<Longrightarrow> block_type pb = ''to_do''"
  by (auto simp: parseParagraph_def parseHeading_def parseListItem_def parseQuote_def
      parseCode_def parseCallout_def parseDivider_def parseImage_def parseBookmark_def
      parseToggle_def parseToDo_def Let_def dest!: andThen_Inr split: if_splits)

lemma parseBlock_type_tag:
  assumes "parseBlock b = Inr (Some pb)"
  shows "field b ''type'' = JStr (block_type pb)"
proof -
  have nn: "\<not> nullish b" using assms parseBlock_null by fastforce
  show ?thesis
    using assms nn
    by (auto simp: parseBlock_def get_simps split: if_splits dest!: always_Inr
        dest: parser_type_tags)
qed

lemma parseBlock_recognized_survives:
  assumes "field b ''type'' \<in> JStr ` set recognizedTypes" "field b ''type'' \<noteq> JStr ''image''"
    "\<not> throwsOn b"
  shows "survives b"
proof -
  obtain r where r: "parseBlock b = Inr r" using assms(3) by (cases "parseBlock b") (simp_all add: throwsOn_def)
  then have nn: "\<not> nullish b" using parseBlock_null by fastforce
  have "\<exists>pb. r = Some pb"
    using assms(1,2) r nn always_Some
    by (auto simp: parseBlock_def get_simps recognizedTypes_def)
  then show ?thesis using r by (auto simp: survives_def)
qed

lemma parseBlocks_loop_eq:
  "parseBlocks_loop acc blocks =
     (case find throwsOn blocks of
        Some b \<Rightarrow> Inl (projl (parseBlock b))
      | None \<Rightarrow> Inr (acc @ map stubOf (filter survives blocks)))"
proof (induction blocks arbitrary: acc)
  case Nil
  then show ?case by simp
next
  case (Cons b blocks)
  show ?case
  proof (cases "parseBlock b")
    case (Inl e)
    then show ?thesis by (simp add: throwsOn_def)
  next
    case (Inr r)
    then have nn: "\<not> nullish b" using parseBlock_null by fastforce
    have nt: "\<not> throwsOn b" using Inr by (simp add: throwsOn_def)
    show ?thesis
    proof (cases r)
      case None
      then have "\<not> survives b" using Inr by (simp add: survives_def)
      then show ?thesis using Inr None nt Cons.IH by (simp split: option.splits)
    next
      case (Some pb)
      then have "survives b" "stubOf b = Node (field b ''id'') pb []"
        using Inr by (simp_all add: survives_def stubOf_def)
      then show ?thesis using Inr Some nt nn Cons.IH by (simp add: get_simps split: option.splits)
    qed
  qed
qed

text \<open>
  C4, as amended. Batch parsing returns the stubs of the surviving records, in the order of
  the input, unless the block parser throws on one of the records; then batch parsing throws
  the error of the first such record and returns nothing. A record of unrecognized type does
  not survive (the parser returns no result for it, not an error); a record of a recognized
  type other than image survives when the parser does not throw on it; a surviving record
  gives one stub that pairs its parsed block, of the record's type, with its identifier and
  an empty children sequence; and the output is at most as long as the input.
\<close>

theorem parseBlocks_keeps_survivors_in_order:
  "parseBlocks blocks =
     (case find throwsOn blocks of
        Some b \<Rightarrow> Inl (projl (parseBlock b))
      | None \<Rightarrow> Inr (map stubOf (filter survives blocks))) \<and>
   (\<forall>b. \<not> nullish b \<and> field b ''type'' \<notin> JStr ` set recognizedTypes \<longrightarrow> parseBlock b = Inr None) \<and>
   (\<forall>b. field b ''type'' \<in> JStr ` set recognizedTypes \<and> field b ''type'' \<noteq> JStr ''image'' \<and>
        \<not> throwsOn b \<longrightarrow> survives b) \<and>
   (\<forall>b. survives b \<longrightarrow>
      (\<exists>pb. parseBlock b = Inr (Some pb) \<and> field b ''type'' = JStr (block_type pb) \<and>
            stubOf b = Node (field b ''id'') pb [])) \<and>
   length (map stubOf (filter survives blocks)) \<le> length blocks"
proof (intro conjI allI impI)
  show "parseBlocks blocks =
     (case find throwsOn blocks of
        Some b \<Rightarrow> Inl (projl (parseBlock b))
      | None \<Rightarrow> Inr (map stubOf (filter survives blocks)))"
    using parseBlocks_loop_eq [of "[]" blocks] by (simp add: parseBlocks_def split: option.splits)
next
  fix b assume "\<not> nullish b \<and> field b ''type'' \<notin> JStr ` set recognizedTypes"
  then show "parseBlock b = Inr None" using parseBlock_unrecognized by blast
next
  fix b assume "field b ''type'' \<in> JStr ` set recognizedTypes \<and> field b ''type'' \<noteq> JStr ''image'' \<and>
        \<not> throwsOn b"
  then show "survives b" using parseBlock_recognized_survives by blast
next
  fix b assume "survives b"
  then obtain pb where pb: "parseBlock b = Inr (Some pb)"
    by (auto simp: survives_def split: sum.splits option.splits)
  then have "stubOf b = Node (field b ''id'') pb []" by (simp add: stubOf_def)
  then show "\<exists>pb. parseBlock b = Inr (Some pb) \<and> field b ''type'' = JStr (block_type pb) \<and>
            stubOf b = Node (field b ''id'') pb []"
    using pb parseBlock_type_tag by blast
next
  show "length (map stubOf (filter survives blocks)) \<le> length blocks" by simp
qed

text \<open>
  The amended C4 at a paragraph, a record of unsupported type and a divider (two stubs, in
  order), and at a divider followed by \<open>null\<close> (the batch throws).
\<close>

theorem parseBlocks_keeps_survivors_in_order_witness:
  "parseBlocks
     [JObj [(''id'', JStr ''block-1''), (''type'', JStr ''paragraph''),
            (''paragraph'', JObj [(''rich_text'', JArr [])]), (''has_children'', JBool False)],
      JObj [(''id'', JStr ''block-2''), (''type'', JStr ''unsupported_type'')],
      JObj [(''id'', JStr ''block-3''), (''type'', JStr ''divider''), (''divider'', JObj [])]]
   = Inr [Node (JStr ''block-1'') (ParagraphBlock [] (JBool False)) [],
          Node (JStr ''block-3'') DividerBlock []] \<and>
   parseBlocks
     [JObj [(''id'', JStr ''block-3''), (''type'', JStr ''divider''), (''divider'', JObj [])],
      JNull]
   = Inl TypeError \<and>
   survives (JObj [(''id'', JStr ''block-3''), (''type'', JStr ''divider''), (''divider'', JObj [])])"
proof -
  let ?p = "JObj [(''id'', JStr ''block-1''), (''type'', JStr ''paragraph''),
            (''paragraph'', JObj [(''rich_text'', JArr [])]), (''has_children'', JBool False)]"
  let ?u = "JObj [(''id'', JStr ''block-2''), (''type'', JStr ''unsupported_type'')]"
  let ?d = "JObj [(''id'', JStr ''block-3''), (''type'', JStr ''divider''), (''divider'', JObj [])]"
  have p: "parseBlock ?p = Inr (Some (ParagraphBlock [] (JBool False)))"
    by (simp add: eval_defs)
  have u: "parseBlock ?u = Inr None"
    using parseBlocks_keeps_survivors_in_order
      [of "[]", THEN conjunct2, THEN conjunct1, rule_format, of ?u]
    by (simp add: recognizedTypes_def)
  have d: "parseBlock ?d = Inr (Some DividerBlock)"
    by (simp add: eval_defs)
  have n: "parseBlock JNull = Inl TypeError"
    by (simp add: eval_defs)
  have s: "survives ?d"
    using parseBlocks_keeps_survivors_in_order
      [of "[]", THEN conjunct2, THEN conjunct2, THEN conjunct1, rule_format, of ?d] d
    by (simp add: recognizedTypes_def throwsOn_def)
  show ?thesis
    using parseBlocks_keeps_survivors_in_order [of "[?p, ?u, ?d]", THEN conjunct1]
      parseBlocks_keeps_survivors_in_order [of "[?d, JNull]", THEN conjunct1] p u d n s
    by (simp add: survives_def stubOf_def throwsOn_def)
qed

text \<open>
  C4 as stated fails: a paragraph record whose rich text holds a \<open>null\<close> run, between two
  dividers, makes batch parsing throw; no stub is returned, not even for the dividers.
\<close>

theorem parseBlocks_throws_on_null_run:
  "parseBlocks
     [JObj [(''id'', JStr ''block-1''), (''type'', JStr ''divider''), (''divider'', JObj [])],
      JObj [(''id'', JStr ''block-2''), (''type'', JStr ''paragraph''),
            (''paragraph'', JObj [(''rich_text'', JArr [JNull])]), (''has_children'', JBool False)],
      JObj [(''id'', JStr ''block-3''), (''type'', JStr ''divider''), (''divider'', JObj [])]]
   = Inl TypeError"
  by (simp add: parseBlocks_def eval_defs)

lemma traverse_get_textRuns:
  "list_all textRun rts \<Longrightarrow>
   traverse (\<lambda>rt. get rt ''plain_text'') rts = Inr (map (\<lambda>rt. field rt ''plain_text'') rts)"
  by (induction rts) (simp_all add: textRun_def get_simps)

lemma collect_textRuns:
  "list_all textRun rts \<Longrightarrow>
   collect (map (\<lambda>x. if nullish x then Inr [] else toString x)
              (map (\<lambda>rt. field rt ''plain_text'') rts)) = Inr (map plainText rts)"
proof (induction rts)
  case Nil
  then show ?case by simp
next
  case (Cons rt rts)
  then have "textRun rt" by simp
  then have "(if nullish (field rt ''plain_text'') then Inr [] else toString (field rt ''plain_text''))
               = Inr (plainText rt)"
    by (cases "field rt ''plain_text''") (simp_all add: textRun_def plainText_def)
  then show ?case using Cons by simp
qed

lemma intersperse_Nil: "intersperse [] ss = concat ss"
  by (induction ss rule: induct_list012) simp_all

lemma join_textRuns:
  "list_all textRun rts \<Longrightarrow>
   join [] (map (\<lambda>rt. field rt ''plain_text'') rts) = Inr (concat (map plainText rts))"
  using collect_textRuns [of rts]
  by (simp add: join_def traverse_def intersperse_Nil del: map_map)

lemma parseCode_body:
  assumes "\<not> nullish blk"
  shows "parseCode blk =
     andThen (case orElse (field (field blk ''code'') ''rich_text'') (JArr []) of
                JArr rts \<Rightarrow> andThen (traverse (\<lambda>rt. get rt ''plain_text'') rts) (join [])
              | _ \<Rightarrow> Inl TypeError) (\<lambda>content.
     andThen (parseRichText (field (field blk ''code'') ''caption'')) (\<lambda>cap.
       Inr (CodeBlock content
              (orElse (field (field blk ''code'') ''language'') (JStr ''plain text'')) cap)))"
  using assms by (simp add: parseCode_def get_simps opt_is_field parseRichText_orElse)

text \<open>
  C6, as amended. For a code block record whose code body is absent or an array of text
  runs and whose caption has no \<open>null\<close> or \<open>undefined\<close> run, the content of the parsed Code
  block is the concatenation of the runs' plain texts, in order and with nothing in between
  (empty for an absent body, an absent plain text adding nothing); its language is the
  record's language, and \<^verbatim>\<open>"plain text"\<close> when that is absent; its caption is the normalized
  caption. A \<open>null\<close> or \<open>undefined\<close> run in the body, or in the caption of such a record, makes
  the parser throw.
\<close>

theorem parseCode_concatenates_plain_text:
  assumes "field blk ''type'' = JStr ''code''"
  shows "(\<forall>rts. bodyRuns (field (field blk ''code'') ''rich_text'') rts \<and> list_all textRun rts \<and>
              \<not> hasNullishRun (field (field blk ''code'') ''caption'') \<longrightarrow>
            (\<exists>cap. parseRichText (field (field blk ''code'') ''caption'') = Inr cap \<and>
               parseBlock blk =
                 Inr (Some (CodeBlock (concat (map plainText rts))
                        (if truthy (field (field blk ''code'') ''language'')
                         then field (field blk ''code'') ''language'' else JStr ''plain text'')
                        cap)))) \<and>
         (hasNullishRun (field (field blk ''code'') ''rich_text'') \<longrightarrow>
            parseBlock blk = Inl TypeError) \<and>
         (\<forall>rts. bodyRuns (field (field blk ''code'') ''rich_text'') rts \<and> list_all textRun rts \<and>
              hasNullishRun (field (field blk ''code'') ''caption'') \<longrightarrow>
            parseBlock blk = Inl TypeError)"
proof -
  let ?body = "field (field blk ''code'') ''rich_text''"
  let ?cap = "field (field blk ''code'') ''caption''"
  have nn: "\<not> nullish blk" using assms by (rule field_eq_not_nullish)
  have pc: "parseBlock blk = always (parseCode blk)" using assms by (rule parseBlock_code)
  have content: "(case orElse ?body (JArr []) of
                JArr rts \<Rightarrow> andThen (traverse (\<lambda>rt. get rt ''plain_text'') rts) (join [])
              | _ \<Rightarrow> Inl TypeError) = Inr (concat (map plainText rts))"
    if "bodyRuns ?body rts" "list_all textRun rts" for rts
  proof -
    have "orElse ?body (JArr []) = JArr rts"
      using that(1) by (auto simp: bodyRuns_def orElse_def split: if_splits)
    then show ?thesis using that(2) by (simp add: traverse_get_textRuns join_textRuns)
  qed
  show ?thesis
  proof (intro conjI allI impI)
    fix rts
    assume a: "bodyRuns ?body rts \<and> list_all textRun rts \<and> \<not> hasNullishRun ?cap"
    then obtain cap where cap: "parseRichText ?cap = Inr cap" using parseRichText_ok by blast
    then show "\<exists>cap. parseRichText ?cap = Inr cap \<and>
               parseBlock blk =
                 Inr (Some (CodeBlock (concat (map plainText rts))
                        (if truthy (field (field blk ''code'') ''language'')
                         then field (field blk ''code'') ''language'' else JStr ''plain text'')
                        cap))"
      using a content [of rts] by (simp add: pc parseCode_body [OF nn] orElse_def)
  next
    assume "hasNullishRun ?body"
    then obtain rts where rts: "?body = JArr rts" "\<exists>rt\<in>set rts. nullish rt"
      by (cases ?body) (auto simp: hasNullishRun_def list_ex_iff)
    then have "\<exists>x\<in>set rts. \<exists>e. get x ''plain_text'' = Inl e"
      using get_simps(1) by blast
    then have "traverse (\<lambda>rt. get rt ''plain_text'') rts = Inl TypeError"
      using traverse_some_fail [of "\<lambda>rt. get rt ''plain_text''" rts] get_error by blast
    then show "parseBlock blk = Inl TypeError"
      using rts(1) by (simp add: pc parseCode_body [OF nn] orElse_def)
  next
    fix rts
    assume a: "bodyRuns ?body rts \<and> list_all textRun rts \<and> hasNullishRun ?cap"
    then have "parseRichText ?cap = Inl TypeError" using parseRichText_throws by blast
    then show "parseBlock blk = Inl TypeError"
      using a content [of rts] by (simp add: pc parseCode_body [OF nn])
  qed
qed

text \<open>
  The amended C6 at the three runs of the multi-line example with no language given, at a
  record that has a language and no body, at a record whose caption holds \<open>null\<close>, and at a
  record whose body holds \<open>undefined\<close>.
\<close>

theorem parseCode_concatenates_plain_text_witness:
  "parseBlock (JObj [(''type'', JStr ''code''),
       (''code'', JObj [(''rich_text'', JArr
            [JObj [(''plain_text'', JStr ''function hello() {\<newline>'')],
             JObj [(''plain_text'', JStr ''  return 'world';\<newline>'')],
             JObj [(''plain_text'', JStr ''}'')]])])])
     = Inr (Some (CodeBlock ''function hello() {\<newline>  return 'world';\<newline>}''
                   (JStr ''plain text'') [])) \<and>
   parseBlock (JObj [(''type'', JStr ''code''), (''code'', JObj [(''language'', JStr ''typescript'')])])
     = Inr (Some (CodeBlock [] (JStr ''typescript'') [])) \<and>
   parseBlock (JObj [(''type'', JStr ''code''),
       (''code'', JObj [(''rich_text'', JArr [JObj [(''plain_text'', JStr ''x'')]]),
                        (''caption'', JArr [JNull])])])
     = Inl TypeError \<and>
   parseBlock (JObj [(''type'', JStr ''code''), (''code'', JObj [(''rich_text'', JArr [JUndefined])])])
     = Inl TypeError"
proof -
  let ?rts = "[JObj [(''plain_text'', JStr ''function hello() {\<newline>'')],
             JObj [(''plain_text'', JStr ''  return 'world';\<newline>'')],
             JObj [(''plain_text'', JStr ''}'')]]"
  let ?a = "JObj [(''type'', JStr ''code''), (''code'', JObj [(''rich_text'', JArr ?rts)])]"
  let ?b = "JObj [(''type'', JStr ''code''), (''code'', JObj [(''language'', JStr ''typescript'')])]"
  let ?c = "JObj [(''type'', JStr ''code''),
       (''code'', JObj [(''rich_text'', JArr [JObj [(''plain_text'', JStr ''x'')]]),
                        (''caption'', JArr [JNull])])]"
  let ?d = "JObj [(''type'', JStr ''code''), (''code'', JObj [(''rich_text'', JArr [JUndefined])])]"
  have t: "field ?a ''type'' = JStr ''code''" "field ?b ''type'' = JStr ''code''"
    "field ?c ''type'' = JStr ''code''" "field ?d ''type'' = JStr ''code''" by simp_all
  have a: "parseBlock ?a = Inr (Some (CodeBlock ''function hello() {\<newline>  return 'world';\<newline>}''
                   (JStr ''plain text'') []))"
    using parseCode_concatenates_plain_text [OF t(1), THEN conjunct1, rule_format, of ?rts]
    by (simp add: bodyRuns_def textRun_def plainText_def hasNullishRun_def parseRichText_def)
  have b: "parseBlock ?b = Inr (Some (CodeBlock [] (JStr ''typescript'') []))"
    using parseCode_concatenates_plain_text [OF t(2), THEN conjunct1, rule_format, of "[]"]
    by (simp add: bodyRuns_def hasNullishRun_def parseRichText_def)
  have c: "parseBlock ?c = Inl TypeError"
    using parseCode_concatenates_plain_text [OF t(3), THEN conjunct2, THEN conjunct2, rule_format,
        of "[JObj [(''plain_text'', JStr ''x'')]]"]
    by (simp add: bodyRuns_def textRun_def hasNullishRun_def)
  have d: "parseBlock ?d = Inl TypeError"
    using parseCode_concatenates_plain_text [OF t(4), THEN conjunct2, THEN conjunct1]
    by (simp add: hasNullishRun_def)
  show ?thesis using a b c d by simp
qed

text \<open>
  C6 as stated fails: a code block record whose body holds a \<open>null\<close> run has no parsed
  Code block; reading \<^verbatim>\<open>rt.plain_text\<close> of that run throws.
\<close>

theorem parseCode_throws_on_null_run:
  "parseBlock (JObj [(''type'', JStr ''code''),
       (''code'', JObj [(''rich_text'', JArr [JObj [(''plain_text'', JStr ''x'')], JNull]),
                        (''language'', JStr ''typescript''), (''caption'', JArr [])])])
     = Inl TypeError"
  by (simp add: eval_defs)

text \<open>
  C7, as amended. For an image block record the parser returns no result exactly when the
  image sub-object is missing (falsy) or the URL it offers, external or file according to the
  type tag, is missing (falsy). When there is a URL and the caption has no \<open>null\<close> or
  \<open>undefined\<close> run, it returns an Image block with that URL and the normalized caption; when
  there is a URL and the caption has such a run, it throws.
\<close>

theorem parseImage_null_iff_no_url:
  assumes "field blk ''type'' = JStr ''image''"
  shows "(parseBlock blk = Inr None \<longleftrightarrow>
            \<not> truthy (field blk ''image'') \<or> \<not> truthy (imageUrl (field blk ''image''))) \<and>
         (truthy (field blk ''image'') \<and> truthy (imageUrl (field blk ''image'')) \<and>
          \<not> hasNullishRun (field (field blk ''image'') ''caption'') \<longrightarrow>
            (\<exists>cap. parseRichText (field (field blk ''image'') ''caption'') = Inr cap \<and>
               parseBlock blk = Inr (Some (ImageBlock (imageUrl (field blk ''image'')) cap)))) \<and>
         (truthy (field blk ''image'') \<and> truthy (imageUrl (field blk ''image'')) \<and>
          hasNullishRun (field (field blk ''image'') ''caption'') \<longrightarrow>
            parseBlock blk = Inl TypeError)"
proof -
  let ?cap = "field (field blk ''image'') ''caption''"
  have nn: "\<not> nullish blk" using assms by (rule field_eq_not_nullish)
  have pi: "parseBlock blk =
      (if \<not> truthy (field blk ''image'') \<or> \<not> truthy (imageUrl (field blk ''image'')) then Inr None
       else andThen (parseRichText ?cap)
              (\<lambda>cap. Inr (Some (ImageBlock (imageUrl (field blk ''image'')) cap))))"
    unfolding parseBlock_image [OF assms]
    by (simp add: parseImage_def get_simps nn imageUrl_def Let_def parseRichText_orElse)
  show ?thesis
  proof (cases "hasNullishRun ?cap")
    case True
    then have "parseRichText ?cap = Inl TypeError" by (rule parseRichText_throws)
    then show ?thesis using True by (simp add: pi)
  next
    case False
    then obtain cap where "parseRichText ?cap = Inr cap" using parseRichText_ok by blast
    then show ?thesis using False by (simp add: pi)
  qed
qed

text \<open>
  The amended C7 at an external image with its URL, at an image tagged external that only
  has a file URL, at a record without image sub-object, and at a file image whose caption
  holds \<open>undefined\<close>.
\<close>

theorem parseImage_null_iff_no_url_witness:
  "parseBlock (JObj [(''type'', JStr ''image''),
       (''image'', JObj [(''type'', JStr ''external''),
                         (''external'', JObj [(''url'', JStr ''https://example.com/image.jpg'')]),
                         (''caption'', JArr [])])])
     = Inr (Some (ImageBlock (JStr ''https://example.com/image.jpg'') [])) \<and>
   parseBlock (JObj [(''type'', JStr ''image''),
       (''image'', JObj [(''type'', JStr ''external''),
                         (''file'', JObj [(''url'', JStr ''https://notion.so/images/abc123.png'')])])])
     = Inr None \<and>
   parseBlock (JObj [(''type'', JStr ''image'')]) = Inr None \<and>
   parseBlock (JObj [(''type'', JStr ''image''),
       (''image'', JObj [(''type'', JStr ''file''),
                         (''file'', JObj [(''url'', JStr ''https://notion.so/images/abc123.png'')]),
                         (''caption'', JArr [JUndefined])])])
     = Inl TypeError"
proof -
  let ?a = "JObj [(''type'', JStr ''image''),
       (''image'', JObj [(''type'', JStr ''external''),
                         (''external'', JObj [(''url'', JStr ''https://example.com/image.jpg'')]),
                         (''caption'', JArr [])])]"
  let ?b = "JObj [(''type'', JStr ''image''),
       (''image'', JObj [(''type'', JStr ''external''),
                         (''file'', JObj [(''url'', JStr ''https://notion.so/images/abc123.png'')])])]"
  let ?c = "JObj [(''type'', JStr ''image'')]"
  let ?d = "JObj [(''type'', JStr ''image''),
       (''image'', JObj [(''type'', JStr ''file''),
                         (''file'', JObj [(''url'', JStr ''https://notion.so/images/abc123.png'')]),
                         (''caption'', JArr [JUndefined])])]"
  have t: "field ?a ''type'' = JStr ''image''" "field ?b ''type'' = JStr ''image''"
    "field ?c ''type'' = JStr ''image''" "field ?d ''type'' = JStr ''image''" by simp_all
  have a: "parseBlock ?a = Inr (Some (ImageBlock (JStr ''https://example.com/image.jpg'') []))"
    using parseImage_null_iff_no_url [OF t(1)]
    by (simp add: imageUrl_def opt_def hasNullishRun_def parseRichText_def)
  have b: "parseBlock ?b = Inr None"
    using parseImage_null_iff_no_url [OF t(2)] by (simp add: imageUrl_def opt_def)
  have c: "parseBlock ?c = Inr None"
    using parseImage_null_iff_no_url [OF t(3)] by simp
  have d: "parseBlock ?d = Inl TypeError"
    using parseImage_null_iff_no_url [OF t(4)] by (simp add: imageUrl_def opt_def hasNullishRun_def)
  show ?thesis using a b c d by simp
qed

text \<open>
  C7 as stated fails: an external image with a resolvable URL and a caption that holds a
  \<open>null\<close> run gives no Image block; normalizing the caption throws.
\<close>

theorem parseImage_throws_on_null_caption_run:
  "parseBlock (JObj [(''type'', JStr ''image''),
       (''image'', JObj [(''type'', JStr ''external''),
                         (''external'', JObj [(''url'', JStr ''https://example.com/image.jpg'')]),
                         (''caption'', JArr [JNull])])])
     = Inl TypeError"
  by (simp add: eval_defs)

section \<open>The rich text renderer\<close>

lemma renderElement_order:
  "renderElement text =
     (let styled = applyWrappers (styleOrder text) (Text (content text))
      in if truthy (link text) then Anchor (link text) styled else styled)"
  by (simp add: renderElement_def applyWrappers_def styleOrder_def Let_def)

lemma RichTextRenderer_nth:
  "i < length spans \<Longrightarrow> RichTextRenderer spans ! i = SpanEl i (renderElement (spans ! i))"
  by (simp add: RichTextRenderer_def nth_enumerate_eq)

text \<open>
  C1, as amended. For every span of its input, the renderer applies the style wrappers in
  the fixed order bold, italic, strikethrough, underline, inline code from innermost to
  outermost: italic wraps bold, strikethrough wraps italic, underline wraps strikethrough, and
  inline code is outermost. If the link is set (truthy), the whole styled result is wrapped
  in a hyperlink to it.
\<close>

theorem RichTextRenderer_nesting_order:
  assumes "i < length spans"
  shows "RichTextRenderer spans ! i =
           SpanEl i
             (let text = spans ! i;
                  styled = applyWrappers (styleOrder text) (Text (content text))
              in if truthy (link text) then Anchor (link text) styled else styled) \<and>
         (truthy (bold (annotations (spans ! i))) \<and> truthy (italic (annotations (spans ! i))) \<and>
          truthy (strikethrough (annotations (spans ! i))) \<and>
          truthy (underline (annotations (spans ! i))) \<and>
          truthy (code (annotations (spans ! i))) \<and> truthy (link (spans ! i)) \<longrightarrow>
            RichTextRenderer spans ! i =
              SpanEl i (Anchor (link (spans ! i))
                (InlineCode (Underlined (Strike (Em (Strong (Text (content (spans ! i))))))))))"
  unfolding RichTextRenderer_nth [OF assms] renderElement_order
  by (simp add: applyWrappers_def styleOrder_def Let_def)

text \<open>
  The amended C1 at a linked span with all five flags set.
\<close>

theorem RichTextRenderer_nesting_order_witness:
  "RichTextRenderer
     [\<lparr> content = JStr ''x'', link = JStr ''https://example.com'',
        annotations = \<lparr> bold = JBool True, italic = JBool True, strikethrough = JBool True,
          underline = JBool True, code = JBool True, color = JStr ''default'' \<rparr> \<rparr>] ! 0 =
     SpanEl 0 (Anchor (JStr ''https://example.com'')
       (InlineCode (Underlined (Strike (Em (Strong (Text (JStr ''x''))))))))"
proof -
  let ?spans = "[\<lparr> content = JStr ''x'', link = JStr ''https://example.com'',
        annotations = \<lparr> bold = JBool True, italic = JBool True, strikethrough = JBool True,
          underline = JBool True, code = JBool True, color = JStr ''default'' \<rparr> \<rparr>]"
  have h: "0 < length ?spans" by simp
  from RichTextRenderer_nesting_order [OF h] show ?thesis
    by (simp add: applyWrappers_def styleOrder_def)
qed

text \<open>
  C1 as stated fails: for a bold and italic span the renderer puts the bold element inside
  the italic one, where the order of the specification's words would put italic inside bold.
\<close>

theorem RichTextRenderer_bold_italic_not_spec_order:
  "RichTextRenderer
     [\<lparr> content = JStr ''Bold and Italic'', link = JUndefined,
        annotations = \<lparr> bold = JBool True, italic = JBool True, strikethrough = JBool False,
          underline = JBool False, code = JBool False, color = JStr ''default'' \<rparr> \<rparr>] =
     [SpanEl 0 (Em (Strong (Text (JStr ''Bold and Italic''))))] \<and>
   spec_renderElement \<lparr> content = JStr ''Bold and Italic'', link = JUndefined,
       annotations = \<lparr> bold = JBool True, italic = JBool True, strikethrough = JBool False,
         underline = JBool False, code = JBool False, color = JStr ''default'' \<rparr> \<rparr> =
     Strong (Em (Text (JStr ''Bold and Italic''))) \<and>
   Em (Strong (Text (JStr ''Bold and Italic''))) \<noteq> Strong (Em (Text (JStr ''Bold and Italic'')))"
  by (simp add: RichTextRenderer_def renderElement_def spec_renderElement_def enumerate_eq_zip)

section \<open>The block tree fetcher\<close>

lemma leafVariant_no_flag: "leafVariant b \<Longrightarrow> \<not> truthy (hasChildren b)"
  by (cases b) simp_all

lemma parseBlocks_loop_stubs:
  "\<forall>n\<in>set acc. children n = [] \<Longrightarrow> parseBlocks_loop acc blocks = Inr out \<Longrightarrow>
   \<forall>n\<in>set out. children n = []"
proof (induction blocks arbitrary: acc)
  case Nil
  then show ?case by simp
next
  case (Cons b blocks)
  show ?case
  proof (cases "parseBlock b")
    case (Inl e)
    then show ?thesis using Cons.prems by simp
  next
    case (Inr r)
    show ?thesis
    proof (cases r)
      case None
      then show ?thesis using Inr Cons by simp
    next
      case (Some pb)
      then have "\<not> nullish b" using Inr parseBlock_null by fastforce
      then have "parseBlocks_loop (acc @ [Node (field b ''id'') pb []]) blocks = Inr out"
        using Cons.prems(2) Inr Some by (simp add: get_simps)
      moreover have "\<forall>n\<in>set (acc @ [Node (field b ''id'') pb []]). children n = []"
        using Cons.prems(1) by simp
      ultimately show ?thesis using Cons.IH by blast
    qed
  qed
qed

lemma expandChildren_wellShaped:
  assumes "\<And>i cs. recur i = Done cs \<Longrightarrow> \<forall>c\<in>set cs. wellShaped c"
  shows "\<forall>n\<in>set bs. children n = [] \<Longrightarrow> expandChildren recur bs = Done out \<Longrightarrow>
         \<forall>n\<in>set out. wellShaped n"
proof (induction bs arbitrary: out)
  case Nil
  then show ?case by simp
next
  case (Cons b bs)
  obtain i pb cs where b: "b = Node i pb cs" by (cases b)
  then have cs: "cs = []" using Cons.prems(1) by simp
  show ?case
  proof (cases "canHaveChildren pb \<and> truthy (hasChildren pb)")
    case True
    then have "thenDo (recur i) (\<lambda>cs. thenDo (expandChildren recur bs)
                 (\<lambda>rest. Done (Node i pb cs # rest))) = Done out"
      using Cons.prems(2) b by simp
    then obtain kids where k: "recur i = Done kids"
      "thenDo (expandChildren recur bs) (\<lambda>rest. Done (Node i pb kids # rest)) = Done out"
      using thenDo_Done by fastforce
    then obtain rest where r: "expandChildren recur bs = Done rest" "out = Node i pb kids # rest"
      using thenDo_Done by fastforce
    have "\<forall>c\<in>set kids. wellShaped c" using assms k(1) by blast
    moreover have "\<not> leafVariant pb" using True leafVariant_no_flag by blast
    moreover have "\<forall>n\<in>set rest. wellShaped n" using Cons.IH Cons.prems(1) r(1) by simp
    ultimately show ?thesis using r(2) True by simp
  next
    case False
    then have "thenDo (expandChildren recur bs) (\<lambda>rest. Done (b # rest)) = Done out"
      using Cons.prems(2) b by auto
    then obtain rest where r: "expandChildren recur bs = Done rest" "out = b # rest"
      using thenDo_Done by fastforce
    have "\<forall>n\<in>set rest. wellShaped n" using Cons.IH Cons.prems(1) r(1) by simp
    then show ?thesis using r(2) b cs by simp
  qed
qed

lemma fetch_wellShaped:
  "fetchBlocksRecursively depth api blockId = Done ns \<Longrightarrow> \<forall>n\<in>set ns. wellShaped n"
proof (induction depth arbitrary: blockId ns)
  case 0
  then show ?case by simp
next
  case (Suc depth)
  from Suc.prems obtain results where res: "lift (api blockId) = Done results"
    and 1: "thenDo (lift (parseBlocks results))
              (\<lambda>blocks. expandChildren (fetchBlocksRecursively depth api) blocks) = Done ns"
    using thenDo_Done by fastforce
  from 1 obtain blocks where bl: "lift (parseBlocks results) = Done blocks"
    and 2: "expandChildren (fetchBlocksRecursively depth api) blocks = Done ns"
    using thenDo_Done by fastforce
  from bl have "parseBlocks results = Inr blocks" by (cases "parseBlocks results") simp_all
  then have "\<forall>n\<in>set blocks. children n = []"
    using parseBlocks_loop_stubs [of "[]" results blocks] by (simp add: parseBlocks_def)
  moreover have "\<And>i cs. fetchBlocksRecursively depth api i = Done cs \<Longrightarrow> \<forall>c\<in>set cs. wellShaped c"
    using Suc.IH by blast
  ultimately show ?case
    using expandChildren_wellShaped [of "fetchBlocksRecursively depth api" blocks ns] 2 by blast
qed

text \<open>
  The depth bound only cuts runs off: a fetch that ends within some depth ends in the same
  way within any greater depth.
\<close>

lemma expandChildren_finished:
  assumes "\<And>i. recur i \<noteq> Timeout \<Longrightarrow> recur' i = recur i"
  shows "expandChildren recur bs \<noteq> Timeout \<Longrightarrow> expandChildren recur' bs = expandChildren recur bs"
proof (induction bs)
  case Nil
  then show ?case by simp
next
  case (Cons b bs)
  show ?case
  proof (cases "canHaveChildren (block b) \<and> truthy (hasChildren (block b))")
    case True
    show ?thesis
    proof (cases "recur (nid b)")
      case (Done cs)
      then have r: "recur' (nid b) = Done cs" using assms [of "nid b"] by simp
      have "expandChildren recur bs \<noteq> Timeout"
        using Cons.prems True Done by (cases "expandChildren recur bs") auto
      then show ?thesis using Cons.IH True Done r by simp
    next
      case (Throw e)
      then have "recur' (nid b) = Throw e" using assms [of "nid b"] by simp
      then show ?thesis using True Throw by simp
    next
      case Timeout
      then show ?thesis using Cons.prems True by simp
    qed
  next
    case False
    then have "expandChildren recur bs \<noteq> Timeout"
      using Cons.prems by (cases "expandChildren recur bs") auto
    then show ?thesis using Cons.IH False by auto
  qed
qed

lemma fetch_deeper:
  "fetchBlocksRecursively depth api blockId \<noteq> Timeout \<Longrightarrow>
   fetchBlocksRecursively (Suc depth) api blockId = fetchBlocksRecursively depth api blockId"
proof (induction depth arbitrary: blockId)
  case 0
  then show ?case by simp
next
  case (Suc depth)
  show ?case
  proof (cases "api blockId")
    case (Inl e)
    then show ?thesis by simp
  next
    case (Inr results)
    show ?thesis
    proof (cases "parseBlocks results")
      case (Inl e)
      then show ?thesis using Inr by simp
    next
      case blocks: (Inr blocks)
      have "expandChildren (fetchBlocksRecursively depth api) blocks \<noteq> Timeout"
        using Suc.prems Inr blocks by simp
      then have "expandChildren (fetchBlocksRecursively (Suc depth) api) blocks =
                 expandChildren (fetchBlocksRecursively depth api) blocks"
        using expandChildren_finished [of "fetchBlocksRecursively depth api"
                "fetchBlocksRecursively (Suc depth) api" blocks] Suc.IH by blast
      then show ?thesis using Inr blocks by simp
    qed
  qed
qed

text \<open>
  C3. Every tree the recursive fetch returns, and every tree \<^verbatim>\<open>getPageBlocks\<close> returns, is
  well shaped at each node: Heading, Quote, Code, Callout, Divider, Image and Bookmark nodes
  have no children, whatever the source record says, and a node with children is a paragraph,
  bulleted or numbered list item, toggle or to-do whose children flag is true.
\<close>

theorem leaf_variants_never_get_children:
  "(fetchBlocksRecursively depth api blockId = Done ns \<longrightarrow> (\<forall>n\<in>set ns. wellShaped n)) \<and>
   (getPageBlocks depth api blockId = Done ns \<longrightarrow> (\<forall>n\<in>set ns. wellShaped n))"
proof (intro conjI impI)
  assume "fetchBlocksRecursively depth api blockId = Done ns"
  then show "\<forall>n\<in>set ns. wellShaped n" by (rule fetch_wellShaped)
next
  assume g: "getPageBlocks depth api blockId = Done ns"
  show "\<forall>n\<in>set ns. wellShaped n"
  proof (cases "fetchBlocksRecursively depth api blockId")
    case (Done blocks)
    then show ?thesis using g fetch_wellShaped [of depth api blockId blocks]
      by (simp add: getPageBlocks_def)
  next
    case (Throw e)
    then show ?thesis using g by (auto simp: getPageBlocks_def)
  next
    case Timeout
    then show ?thesis using g by (simp add: getPageBlocks_def)
  qed
qed

lemma parse_raw:
  "parseBlock (rawBlock i ''heading_1'' c) = Inr (Some (HeadingBlock ''heading_1'' [] (JBool False)))"
  "parseBlock (rawBlock i ''paragraph'' c) = Inr (Some (ParagraphBlock [] (JBool c)))"
  "parseBlock (rawBlock i ''toggle'' c) = Inr (Some (ToggleBlock [] (JBool c)))"
  "parseBlock (rawBlock i ''quote'' c) = Inr (Some (QuoteBlock []))"
  "parseBlock (rawBlock i ''divider'' c) = Inr (Some DividerBlock)"
  by (simp_all add: rawBlock_def eval_defs)

lemma raw_id: "get (rawBlock i t c) ''id'' = Inr (JStr i)"
  by (simp add: rawBlock_def get_def)

lemma example_fetch:
  "fetchBlocksRecursively 3 exampleApi (JStr ''page'') =
     Done [Node (JStr ''h1'') (HeadingBlock ''heading_1'' [] (JBool False)) [],
           Node (JStr ''p1'') (ParagraphBlock [] (JBool True))
             [Node (JStr ''q1'') (QuoteBlock []) []]]"
  by (simp add: numeral_3_eq_3 exampleApi_def parseBlocks_def parse_raw raw_id canHaveChildren_def)

text \<open>
  C3 at an API that flags a heading, a paragraph and, below the paragraph, a quote as
  having children: only the paragraph is expanded.
\<close>

theorem leaf_variants_never_get_children_witness:
  "fetchBlocksRecursively 3 exampleApi (JStr ''page'') =
     Done [Node (JStr ''h1'') (HeadingBlock ''heading_1'' [] (JBool False)) [],
           Node (JStr ''p1'') (ParagraphBlock [] (JBool True))
             [Node (JStr ''q1'') (QuoteBlock []) []]] \<and>
   wellShaped (Node (JStr ''h1'') (HeadingBlock ''heading_1'' [] (JBool False)) []) \<and>
   wellShaped (Node (JStr ''p1'') (ParagraphBlock [] (JBool True))
             [Node (JStr ''q1'') (QuoteBlock []) []])"
  using leaf_variants_never_get_children [of 3 exampleApi "JStr ''page''"
      "[Node (JStr ''h1'') (HeadingBlock ''heading_1'' [] (JBool False)) [],
           Node (JStr ''p1'') (ParagraphBlock [] (JBool True))
             [Node (JStr ''q1'') (QuoteBlock []) []]]"]
    example_fetch
  by simp

lemma expandChildren_append:
  "expandChildren recur pre = Done ready \<Longrightarrow>
   expandChildren recur (pre @ rest) = thenDo (expandChildren recur rest) (\<lambda>r. Done (ready @ r))"
proof (induction pre arbitrary: ready)
  case Nil
  then show ?case by (cases "expandChildren recur rest") simp_all
next
  case (Cons b pre)
  show ?case
  proof (cases "canHaveChildren (block b) \<and> truthy (hasChildren (block b))")
    case True
    then have "thenDo (recur (nid b)) (\<lambda>cs. thenDo (expandChildren recur pre)
                 (\<lambda>rest. Done (Node (nid b) (block b) cs # rest))) = Done ready"
      using Cons.prems by simp
    then obtain kids where k: "recur (nid b) = Done kids"
      "thenDo (expandChildren recur pre) (\<lambda>rest. Done (Node (nid b) (block b) kids # rest)) = Done ready"
      using thenDo_Done by fastforce
    then obtain r0 where r0: "expandChildren recur pre = Done r0"
      "ready = Node (nid b) (block b) kids # r0"
      using thenDo_Done by fastforce
    show ?thesis using True k(1) r0 Cons.IH [OF r0(1)]
      by (cases "expandChildren recur rest") simp_all
  next
    case False
    then have "thenDo (expandChildren recur pre) (\<lambda>rest. Done (b # rest)) = Done ready"
      using Cons.prems by auto
    then obtain r0 where r0: "expandChildren recur pre = Done r0" "ready = b # r0"
      using thenDo_Done by fastforce
    show ?thesis using False r0 Cons.IH [OF r0(1)]
      by (cases "expandChildren recur rest") auto
  qed
qed

lemma apiCallFails_throws:
  "apiCallFails depth api blockId e \<Longrightarrow> fetchBlocksRecursively depth api blockId = Throw e"
proof (induction rule: apiCallFails.induct)
  case (here api blockId e depth)
  then show ?case by simp
next
  case (below api blockId results pre b post depth ready e)
  have "expandChildren (fetchBlocksRecursively depth api) (b # post) = Throw e"
    using below.hyps(4,5) below.IH by simp
  then have "expandChildren (fetchBlocksRecursively depth api) (pre @ b # post) = Throw e"
    using expandChildren_append [OF below.hyps(3)] by simp
  then show ?case using below.hyps(1,2) by simp
qed

text \<open>
  C8. \<^verbatim>\<open>getPageBlocks\<close> never ends with an exception; and when an API call fails at any
  level of the recursion, the recursive fetch throws that error and \<^verbatim>\<open>getPageBlocks\<close> returns
  the empty sequence, not the part of the tree built so far.
\<close>

theorem getPageBlocks_catches_api_failure:
  "getPageBlocks depth api pageId \<noteq> Throw e' \<and>
   (apiCallFails depth api pageId e \<longrightarrow>
      fetchBlocksRecursively depth api pageId = Throw e \<and> getPageBlocks depth api pageId = Done [])"
proof (intro conjI impI)
  show "getPageBlocks depth api pageId \<noteq> Throw e'"
    by (cases "fetchBlocksRecursively depth api pageId") (simp_all add: getPageBlocks_def)
next
  assume "apiCallFails depth api pageId e"
  then show "fetchBlocksRecursively depth api pageId = Throw e" by (rule apiCallFails_throws)
  then show "getPageBlocks depth api pageId = Done []" by (simp add: getPageBlocks_def)
qed

lemma failing_calls: "apiCallFails 2 failingApi (JStr ''page'') (ApiError ''rate_limited'')"
proof -
  have a: "failingApi (JStr ''page'') =
             Inr [rawBlock ''p1'' ''paragraph'' True, rawBlock ''t1'' ''toggle'' True]"
    by (simp add: failingApi_def)
  have p: "parseBlocks [rawBlock ''p1'' ''paragraph'' True, rawBlock ''t1'' ''toggle'' True] =
             Inr ([Node (JStr ''p1'') (ParagraphBlock [] (JBool True)) []] @
                  Node (JStr ''t1'') (ToggleBlock [] (JBool True)) [] # [])"
    by (simp add: parseBlocks_def parse_raw raw_id)
  have e: "expandChildren (fetchBlocksRecursively 1 failingApi)
             [Node (JStr ''p1'') (ParagraphBlock [] (JBool True)) []] =
           Done [Node (JStr ''p1'') (ParagraphBlock [] (JBool True))
                   [Node (JStr ''d1'') DividerBlock []]]"
    by (simp add: failingApi_def parseBlocks_def parse_raw raw_id canHaveChildren_def)
  have f: "apiCallFails 1 failingApi (JStr ''t1'') (ApiError ''rate_limited'')"
    using apiCallFails.here [of failingApi "JStr ''t1''" "ApiError ''rate_limited''" 0]
    by (simp add: failingApi_def)
  have "apiCallFails (Suc 1) failingApi (JStr ''page'') (ApiError ''rate_limited'')"
    using apiCallFails.below [OF a p e _ _ ] f by (simp add: canHaveChildren_def)
  then show ?thesis by (simp add: numeral_2_eq_2)
qed

text \<open>
  C8 at an API whose first child is fetched and expanded and whose call for the second
  child fails: the result is empty.
\<close>

theorem getPageBlocks_catches_api_failure_witness:
  "apiCallFails 2 failingApi (JStr ''page'') (ApiError ''rate_limited'') \<and>
   fetchBlocksRecursively 2 failingApi (JStr ''page'') = Throw (ApiError ''rate_limited'') \<and>
   getPageBlocks 2 failingApi (JStr ''page'') = Done []"
  using getPageBlocks_catches_api_failure
      [of 2 failingApi "JStr ''page''" TypeError "ApiError ''rate_limited''"]
    failing_calls
  by simp

section \<open>Post metadata\<close>

lemma getCategories_error: "getCategories p = Inl e \<Longrightarrow> e = TypeError"
proof (cases "opt p ''multi_select''")
  case (JArr items)
  assume "getCategories p = Inl e"
  then have "traverse (\<lambda>item. get item ''name'') items = Inl e"
    using JArr by (simp add: getCategories_def)
  then show ?thesis using traverse_error [of "\<lambda>item. get item ''name''"] get_error by blast
qed (simp_all add: getCategories_def)

lemma NotionPost_cover_throws:
  assumes "getCover page = Inl TypeError"
  shows "NotionPost page = Inl TypeError"
proof (cases "nullish page \<or> nullish (field page ''properties'')")
  case True
  then show ?thesis by (cases "nullish page") (simp_all add: NotionPost_def get_simps)
next
  case False
  show ?thesis
  proof (cases "getCategories (field (field page ''properties'') ''categories'')")
    case (Inl e)
    then have "e = TypeError" by (rule getCategories_error)
    then show ?thesis using False Inl by (simp add: NotionPost_def get_simps)
  next
    case (Inr cats)
    then show ?thesis using False assms by (simp add: NotionPost_def get_simps)
  qed
qed

text \<open>
  C10. When the page has a cover whose matching sub-object is missing (type \<^verbatim>\<open>file\<close>
  without \<^verbatim>\<open>file\<close>, any other type without \<^verbatim>\<open>external\<close>), cover extraction throws and so
  does the constructor of \<^verbatim>\<open>NotionPost\<close>; when the cover itself is absent or \<open>null\<close>, cover
  extraction returns \<open>null\<close>, which is the thumbnail of the post if one is constructed.
\<close>

theorem getCover_throws_on_missing_subobject:
  "(truthy (field page ''cover'') \<and>
    (if field (field page ''cover'') ''type'' = JStr ''file''
     then nullish (field (field page ''cover'') ''file'')
     else nullish (field (field page ''cover'') ''external'')) \<longrightarrow>
      getCover page = Inl TypeError \<and> NotionPost page = Inl TypeError) \<and>
   (\<not> nullish page \<and> nullish (field page ''cover'') \<longrightarrow>
      getCover page = Inr JNull \<and> (\<forall>p. NotionPost page = Inr p \<longrightarrow> thumbnail p = JNull))"
proof (intro conjI impI)
  assume a: "truthy (field page ''cover'') \<and>
    (if field (field page ''cover'') ''type'' = JStr ''file''
     then nullish (field (field page ''cover'') ''file'')
     else nullish (field (field page ''cover'') ''external''))"
  then have "\<not> nullish page" by (cases page) auto
  then show c: "getCover page = Inl TypeError"
    using a by (auto simp: getCover_def get_simps)
  then show "NotionPost page = Inl TypeError" by (rule NotionPost_cover_throws)
next
  assume a: "\<not> nullish page \<and> nullish (field page ''cover'')"
  then have nt: "\<not> truthy (field page ''cover'')" by (cases "field page ''cover''") auto
  then show c: "getCover page = Inr JNull" using a by (simp add: getCover_def get_simps)
  show "\<forall>p. NotionPost page = Inr p \<longrightarrow> thumbnail p = JNull"
  proof (intro allI impI)
    fix p assume p: "NotionPost page = Inr p"
    have pp: "\<not> nullish (field page ''properties'')"
      using p a by (cases "nullish (field page ''properties'')") (auto simp: NotionPost_def get_simps)
    show "thumbnail p = JNull"
      using p a c pp
      by (cases "getCategories (field (field page ''properties'') ''categories'')")
         (auto simp: NotionPost_def get_simps)
  qed
qed

text \<open>
  C10 at a page with a cover of type \<^verbatim>\<open>file\<close> without file object, at one of type
  \<^verbatim>\<open>external\<close> that only has a file object, and at a page whose cover is \<open>null\<close>.
\<close>

theorem getCover_throws_on_missing_subobject_witness:
  "NotionPost (examplePage (JObj [(''type'', JStr ''file'')])) = Inl TypeError \<and>
   NotionPost (examplePage (JObj [(''type'', JStr ''external''),
                                  (''file'', JObj [(''url'', JStr ''https://notion.so/c.png'')])]))
     = Inl TypeError \<and>
   NotionPost (examplePage JNull) =
     Inr \<lparr> post_id = JStr ''abc123'', title = JStr ''Post'', status = JStr [],
           createdDate = JStr [], series = JNull, categories = [JStr ''TypeScript''],
           thumbnail = JNull \<rparr>"
proof -
  have n: "NotionPost (examplePage JNull) =
     Inr \<lparr> post_id = JStr ''abc123'', title = JStr ''Post'', status = JStr [],
           createdDate = JStr [], series = JNull, categories = [JStr ''TypeScript''],
           thumbnail = JNull \<rparr>"
    by (simp add: examplePage_def NotionPost_def getCover_def getCategories_def getTitle_def
        getStatus_def getDate_def getSeries_def get_def opt_def coalesce_def)
  show ?thesis
    using getCover_throws_on_missing_subobject [of "examplePage (JObj [(''type'', JStr ''file'')])"]
      getCover_throws_on_missing_subobject [of "examplePage (JObj [(''type'', JStr ''external''),
                                  (''file'', JObj [(''url'', JStr ''https://notion.so/c.png'')])])"]
      getCover_throws_on_missing_subobject [of "examplePage JNull"] n
    by (simp add: examplePage_def)
qed

end
